theory Spec2Isabelle
  imports Complex_Main
begin

section \<open>The interior-point solver for linear programs (opt/linipm.go)\<close>

text \<open>
  The Go type \<^verbatim>\<open>LinIpm\<close> solves \<open>min c\<^sup>T x\<close> subject to \<open>A x = b\<close>, \<open>x \<ge> 0\<close> by a primal-dual
  interior-point method with a predictor and a corrector solve in every iteration.

  Conventions of the embedding.
  \<^item> A \<^verbatim>\<open>float64\<close> is a \<^typ>\<open>real\<close>: every arithmetic operation is taken exactly, and
    \<^verbatim>\<open><\<close>, \<^verbatim>\<open>math.Abs\<close> and \<^verbatim>\<open>math.Pow(x, 3)\<close> are their counterparts on the reals.
    Rounding, overflow, infinities and NaN are not modelled. A division by zero, which Go
    evaluates to an infinity or a NaN, is the HOL value \<open>0\<close> here; the theorems below either
    equate two values that the same division produces, or carry hypotheses under which no divisor
    on the way is zero, or evaluate a run in which none is. The problems on which the starting
    point is evaluated hold small dyadic rationals, on which float64 computes the same values.
  \<^item> Modelled from the spec: the functions \<^verbatim>\<open>min\<close> and \<^verbatim>\<open>max\<close> of two float64 values are
    missing from the source file. The specification uses them as the minimum and the maximum
    ("\<open>max(-1.5 xmin, 0)\<close>", "\<open>min(1, xrmin)\<close>"); they are \<^const>\<open>min\<close> and \<^const>\<open>max\<close> on the reals.
  \<^item> A Go \<^verbatim>\<open>int\<close> is an \<^typ>\<open>int\<close> where it can be negative (\<^verbatim>\<open>NmaxIt\<close>, \<^verbatim>\<open>it\<close>) and a
    \<^typ>\<open>nat\<close> where it is a length (\<^verbatim>\<open>Nx\<close>, \<^verbatim>\<open>Nl\<close>, \<^verbatim>\<open>Ny\<close>); the counter \<^verbatim>\<open>it\<close> never
    leaves the range from \<open>0\<close> to \<^verbatim>\<open>NmaxIt\<close>, so it does not overflow.
  \<^item> \<^verbatim>\<open>Y\<close>, \<^verbatim>\<open>Mdy\<close> and \<^verbatim>\<open>R\<close> are one buffer each; the slices \<^verbatim>\<open>X = Y[0:Nx]\<close>,
    \<^verbatim>\<open>L = Y[Nx:Nx+Nl]\<close>, \<^verbatim>\<open>S = Y[Nx+Nl:Ny]\<close> (and the same for \<^verbatim>\<open>Mdy\<close> and \<^verbatim>\<open>R\<close>) are views:
    reading or writing entry \<open>i\<close> of a view reads or writes the buffer at the view's offset plus \<open>i\<close>.
  \<^item> The packages \<^verbatim>\<open>la\<close>, \<^verbatim>\<open>fun\<close> and \<^verbatim>\<open>chk\<close> are not part of the source file. Their
    matrix operations are modelled from their contracts, on a dense matrix; the dense solve of the
    starting point and the sparse linear solver are parameters of \<open>Solve\<close>.
  \<^item> A \<^verbatim>\<open>for i := 0; i < n; i++\<close> loop whose bound does not change is a \<^const>\<open>fold\<close> over
    \<open>[0..<n]\<close>; the iteration loop, which can break and return, is a recursive function.
  \<^item> Printing (\<^verbatim>\<open>io.Pf\<close> under \<^verbatim>\<open>verbose\<close>) has no effect on the state and is left out.
\<close>

subsection \<open>Errors, parameters and matrices\<close>

text \<open>\<^verbatim>\<open>chk.Err(msg)\<close> builds an error value from a message; the linear solver returns errors
  of the same type.\<close>

datatype error = Err string

text \<open>An entry of \<^verbatim>\<open>fun.Params\<close>: \<open>Init\<close> reads the name \<^verbatim>\<open>p.N\<close> and the value \<^verbatim>\<open>p.V\<close>
  (a float64) of each entry.\<close>

record Prm =
  N :: string
  V :: real

text \<open>Go's conversion \<^verbatim>\<open>int(v)\<close> of a float64 drops the fraction (rounds towards zero); what
  it does with a value outside the range of \<^verbatim>\<open>int\<close> is left to the implementation and not
  modelled.\<close>

definition int_of_float64 :: "real \<Rightarrow> int" where
  "int_of_float64 v = (if 0 \<le> v then \<lfloor>v\<rfloor> else \<lceil>v\<rceil>)"

text \<open>Modelled from the spec: the sparse matrix type \<^verbatim>\<open>la.CCMatrix\<close> is missing from the source;
  it "exposes dimensions (rows, cols)" and supports the products below. The model is the dense list
  of its rows.\<close>

type_synonym CCMatrix = "real list list"

definition ncols :: "CCMatrix \<Rightarrow> nat" where
  "ncols a = (case a of [] \<Rightarrow> 0 | r # _ \<Rightarrow> length r)"

text \<open>Modelled from the spec: \<^verbatim>\<open>la.SpMatVecMul(v, \<alpha>, a, u)\<close> is missing from the source; it is the
  "matrix-vector product (y \<leftarrow> \<alpha>\<cdot>M\<cdot>x)".\<close>

definition SpMatVecMul :: "real \<Rightarrow> CCMatrix \<Rightarrow> real list \<Rightarrow> real list" where
  "SpMatVecMul \<alpha> a u = map (\<lambda>row. \<alpha> * sum_list (map (\<lambda>j. row ! j * u ! j) [0..<length row])) a"

text \<open>Modelled from the spec: \<^verbatim>\<open>la.SpMatTrVecMul(v, \<alpha>, a, u)\<close> is missing from the source; it is
  the "transpose-vector product" of \<open>\<alpha>\<close>, the transposed matrix and the vector. \<^verbatim>\<open>la.SpMatTrVecMulAdd\<close>, its
  "additive accumulate variant", adds the same vector to its target.\<close>

definition SpMatTrVecMul :: "real \<Rightarrow> CCMatrix \<Rightarrow> real list \<Rightarrow> real list" where
  "SpMatTrVecMul \<alpha> a u =
     map (\<lambda>j. \<alpha> * sum_list (map (\<lambda>i. a ! i ! j * u ! i) [0..<length a])) [0..<ncols a]"

text \<open>Modelled from the spec: \<^verbatim>\<open>la.SpMatMatTrMul(b, \<alpha>, a)\<close> is missing from the source; it is the
  materialization of the matrix times its transpose "into a dense buffer", scaled by \<open>\<alpha>\<close>.\<close>

definition SpMatMatTrMul :: "real \<Rightarrow> CCMatrix \<Rightarrow> real list list" where
  "SpMatMatTrMul \<alpha> a =
     map (\<lambda>r. map (\<lambda>s. \<alpha> * sum_list (map (\<lambda>j. r ! j * s ! j) [0..<length r])) a) a"

text \<open>Modelled from the spec: \<^verbatim>\<open>la.VecCopy(a, \<alpha>, b)\<close> is missing from the source; the source
  documents its call as \<^verbatim>\<open>s := c\<close>, with the scale \<open>\<alpha> = 1\<close>.\<close>

definition VecCopy :: "real \<Rightarrow> real list \<Rightarrow> real list" where
  "VecCopy \<alpha> u = map (\<lambda>x. \<alpha> * x) u"

text \<open>Modelled from the spec: \<^verbatim>\<open>la.Triplet\<close> is missing from the source; it "supports start
  (clear), put(row, col, value) (accumulate, duplicates sum), and bulk insertion of a sparse matrix
  and its transpose at a given offset". The model keeps the list of entries in the order they were
  put; the blocks of \<open>PutCCMatAndMatT\<close> are those of the residuals \<open>Rx = A\<^sup>T\<lambda> + s - c\<close> (rows
  \<open>0..Nx-1\<close>) and \<open>Rl = A x - b\<close> (rows \<open>Nx..Nx+Nl-1\<close>).\<close>

record Triplet =
  tm :: nat
  tn :: nat
  tmax :: nat
  entries :: "(nat \<times> nat \<times> real) list"

definition Triplet_Init :: "nat \<Rightarrow> nat \<Rightarrow> nat \<Rightarrow> Triplet" where
  "Triplet_Init m n mx = \<lparr>tm = m, tn = n, tmax = mx, entries = []\<rparr>"

definition Start :: "Triplet \<Rightarrow> Triplet" where
  "Start t = t\<lparr>entries := []\<rparr>"

definition Put :: "nat \<Rightarrow> nat \<Rightarrow> real \<Rightarrow> Triplet \<Rightarrow> Triplet" where
  "Put i j x t = t\<lparr>entries := entries t @ [(i, j, x)]\<rparr>"

definition PutCCMatAndMatT :: "CCMatrix \<Rightarrow> Triplet \<Rightarrow> Triplet" where
  "PutCCMatAndMatT a t =
     fold (\<lambda>j. fold (\<lambda>i t'. Put j (ncols a + i) (a ! i ! j) (Put (ncols a + i) j (a ! i ! j) t'))
                      [0..<length a])
          [0..<ncols a] t"

subsection \<open>The solver object\<close>

text \<open>The fields of \<^verbatim>\<open>LinIpm\<close>. The slices \<^verbatim>\<open>X\<close>, \<^verbatim>\<open>L\<close>, \<^verbatim>\<open>S\<close>, \<^verbatim>\<open>Mdx\<close>, \<^verbatim>\<open>Mdl\<close>,
  \<^verbatim>\<open>Mds\<close>, \<^verbatim>\<open>Rx\<close>, \<^verbatim>\<open>Rl\<close>, \<^verbatim>\<open>Rs\<close> are the views defined below. \<open>Lis\<close> is the handle of the
  linear solver, of a type \<open>'s\<close> the backend chooses.\<close>

record 's LinIpm =
  A :: CCMatrix
  B :: "real list"
  C :: "real list"
  NmaxIt :: int
  Tol :: real
  Nx :: nat
  Nl :: nat
  Ny :: nat
  Y :: "real list"
  Mdy :: "real list"
  R :: "real list"
  J :: Triplet
  Lis :: 's

text \<open>Entry \<open>i\<close> of each view, as \<open>Init\<close> slices the buffers: \<^verbatim>\<open>ix, jx := 0, Nx\<close>,
  \<^verbatim>\<open>il, jl := Nx, Nx+Nl\<close>, \<^verbatim>\<open>is, js := Nx+Nl, Ny\<close>.\<close>

definition X :: "'s LinIpm \<Rightarrow> nat \<Rightarrow> real" where
  "X st i = Y st ! i"

definition L :: "'s LinIpm \<Rightarrow> nat \<Rightarrow> real" where
  "L st i = Y st ! (Nx st + i)"

definition S :: "'s LinIpm \<Rightarrow> nat \<Rightarrow> real" where
  "S st i = Y st ! (Nx st + Nl st + i)"

definition Mdx :: "'s LinIpm \<Rightarrow> nat \<Rightarrow> real" where
  "Mdx st i = Mdy st ! i"

definition Mdl :: "'s LinIpm \<Rightarrow> nat \<Rightarrow> real" where
  "Mdl st i = Mdy st ! (Nx st + i)"

definition Mds :: "'s LinIpm \<Rightarrow> nat \<Rightarrow> real" where
  "Mds st i = Mdy st ! (Nx st + Nl st + i)"

definition Rx :: "'s LinIpm \<Rightarrow> nat \<Rightarrow> real" where
  "Rx st i = R st ! i"

definition Rl :: "'s LinIpm \<Rightarrow> nat \<Rightarrow> real" where
  "Rl st i = R st ! (Nx st + i)"

definition Rs :: "'s LinIpm \<Rightarrow> nat \<Rightarrow> real" where
  "Rs st i = R st ! (Nx st + Nl st + i)"

text \<open>A view read as a vector, a vector written to a view, and a vector added to a view: what the
  \<^verbatim>\<open>la\<close> routines do with a slice they are given as argument or as target.\<close>

definition view :: "nat \<Rightarrow> nat \<Rightarrow> real list \<Rightarrow> real list" where
  "view off n buf = map (\<lambda>i. buf ! (off + i)) [0..<n]"

definition set_view :: "nat \<Rightarrow> real list \<Rightarrow> real list \<Rightarrow> real list" where
  "set_view off v buf = fold (\<lambda>i b. b[off + i := v ! i]) [0..<length v] buf"

definition add_view :: "nat \<Rightarrow> real list \<Rightarrow> real list \<Rightarrow> real list" where
  "add_view off v buf = fold (\<lambda>i b. b[off + i := b ! (off + i) + v ! i]) [0..<length v] buf"

subsection \<open>Init\<close>

text \<open>\<^verbatim>\<open>Init(A, b, c, prms)\<close> has no result and no failing branch. It stores the problem, sets the
  constants to their defaults, lets every parameter named \<^verbatim>\<open>"nmaxit"\<close> overwrite \<^verbatim>\<open>NmaxIt\<close> (the
  \<^verbatim>\<open>switch\<close> has this one case), computes the dimensions and allocates zeroed buffers. The handle
  \<^verbatim>\<open>la.GetSolver("umfpack")\<close> returns is the parameter \<open>solver\<close>.\<close>

definition Init :: "'s \<Rightarrow> CCMatrix \<Rightarrow> real list \<Rightarrow> real list \<Rightarrow> Prm list \<Rightarrow> 's LinIpm" where
  "Init solver a b c prms =
     (let nmaxit = fold (\<lambda>p n. if N p = ''nmaxit'' then int_of_float64 (V p) else n) prms 50;
          nx = length c;
          nl = length b;
          ny = 2 * nx + nl
      in \<lparr>A = a, B = b, C = c,
          NmaxIt = nmaxit, Tol = 1 / 10 ^ 8,
          Nx = nx, Nl = nl, Ny = ny,
          Y = replicate ny 0, Mdy = replicate ny 0, R = replicate ny 0,
          J = Triplet_Init ny ny (2 * nl * nx + 3 * nx),
          Lis = solver\<rparr>)"

subsection \<open>The ratio test\<close>

text \<open>\<^verbatim>\<open>calc_min_ratios\<close>: the named results \<^verbatim>\<open>xrmin\<close> and \<^verbatim>\<open>srmin\<close> start at Go's zero value
  \<open>0\<close> and are assigned only at an index with \<^verbatim>\<open>Mdx[i] > 0\<close> (\<^verbatim>\<open>Mds[i] > 0\<close>).\<close>

fun ratio_step :: "'s LinIpm \<Rightarrow> nat \<Rightarrow> real \<times> real \<times> bool \<times> bool \<Rightarrow> real \<times> real \<times> bool \<times> bool" where
  "ratio_step st i (xrmin, srmin, firstxrmin, firstsrmin) =
     (let (xrmin, firstxrmin) =
            (if Mdx st i > 0
             then (if firstxrmin then (X st i / Mdx st i, False)
                   else (min xrmin (X st i / Mdx st i), firstxrmin))
             else (xrmin, firstxrmin));
          (srmin, firstsrmin) =
            (if Mds st i > 0
             then (if firstsrmin then (S st i / Mds st i, False)
                   else (min srmin (S st i / Mds st i), firstsrmin))
             else (srmin, firstsrmin))
      in (xrmin, srmin, firstxrmin, firstsrmin))"

definition calc_min_ratios :: "'s LinIpm \<Rightarrow> real \<times> real" where
  "calc_min_ratios st =
     (let (xrmin, srmin, firstxrmin, firstsrmin) =
            fold (ratio_step st) [0..<Nx st] (0, 0, True, True)
      in (xrmin, srmin))"

subsection \<open>The external solvers\<close>

text \<open>The interface \<^verbatim>\<open>la.LinSol\<close> of the sparse linear solver, as \<open>Solve\<close> calls it. Each
  operation takes the handle and returns an error or the new handle. \<^verbatim>\<open>InitR\<close> is given the
  pointer to the Jacobian, which \<open>Solve\<close> refills in place before every \<^verbatim>\<open>Fact\<close>, so \<open>Fact\<close> takes the
  current Jacobian; \<^verbatim>\<open>SolveR(Mdy, R, false)\<close> returns the vector it writes to \<^verbatim>\<open>Mdy\<close>.\<close>

record 's LinSol =
  InitR :: "'s \<Rightarrow> Triplet \<Rightarrow> bool \<Rightarrow> bool \<Rightarrow> bool \<Rightarrow> error + 's"
  Fact :: "'s \<Rightarrow> Triplet \<Rightarrow> error + 's"
  SolveR :: "'s \<Rightarrow> real list \<Rightarrow> bool \<Rightarrow> error + real list \<times> 's"

text \<open>\<^verbatim>\<open>la.SPDsolve2(d, L, AAt, b, e)\<close>, the dense solve of the starting point, returns the two
  vectors it writes: \<^verbatim>\<open>d := inv(AAt) * b\<close> and \<^verbatim>\<open>L := inv(AAt) * e\<close>.\<close>

type_synonym dense_solver = "real list list \<Rightarrow> real list \<Rightarrow> real list \<Rightarrow> real list \<times> real list"

subsection \<open>The starting point\<close>

text \<open>Lines 119 to 127 of \<open>Solve\<close>: \<open>L\<close> from the dense solve, \<open>X := A\<^sup>T d\<close>, \<open>S := c - A\<^sup>T L\<close>.\<close>

definition initial_guess :: "dense_solver \<Rightarrow> 's LinIpm \<Rightarrow> 's LinIpm" where
  "initial_guess spd st =
     (let AAt = SpMatMatTrMul 1 (A st);
          e = SpMatVecMul 1 (A st) (C st);
          (d, l) = spd AAt (B st) e;
          st = st\<lparr>Y := set_view (Nx st) l (Y st)\<rparr>;
          st = st\<lparr>Y := set_view 0 (SpMatTrVecMul 1 (A st) d) (Y st)\<rparr>;
          st = st\<lparr>Y := set_view (Nx st + Nl st) (VecCopy 1 (C st)) (Y st)\<rparr>
      in st\<lparr>Y := add_view (Nx st + Nl st)
                     (SpMatTrVecMul (- 1) (A st) (view (Nx st) (Nl st) (Y st))) (Y st)\<rparr>)"

text \<open>Lines 128 to 133: the minima of \<open>X\<close> and \<open>S\<close>, read from entry \<open>0\<close> on.\<close>

fun min_step :: "'s LinIpm \<Rightarrow> nat \<Rightarrow> real \<times> real \<Rightarrow> real \<times> real" where
  "min_step st i (xmin, smin) = (min xmin (X st i), min smin (S st i))"

definition min_XS :: "'s LinIpm \<Rightarrow> real \<times> real" where
  "min_XS st = fold (min_step st) [1..<Nx st] (X st 0, S st 0)"

text \<open>Lines 134 to 143: the first shift, and the sums \<^verbatim>\<open>xdots\<close>, \<^verbatim>\<open>xsum\<close>, \<^verbatim>\<open>ssum\<close> of the
  shifted entries.\<close>

fun first_shift_step ::
  "real \<Rightarrow> real \<Rightarrow> nat \<Rightarrow> 's LinIpm \<times> real \<times> real \<times> real \<Rightarrow> 's LinIpm \<times> real \<times> real \<times> real" where
  "first_shift_step \<delta>x \<delta>s i (st, xdots, xsum, ssum) =
     (let st = st\<lparr>Y := (Y st)[i := X st i + \<delta>x]\<rparr>;
          st = st\<lparr>Y := (Y st)[Nx st + Nl st + i := S st i + \<delta>s]\<rparr>
      in (st, xdots + X st i * S st i, xsum + X st i, ssum + S st i))"

definition first_shift :: "'s LinIpm \<Rightarrow> 's LinIpm \<times> real \<times> real \<times> real" where
  "first_shift st =
     (let (xmin, smin) = min_XS st;
          \<delta>x = max (- 1.5 * xmin) 0;
          \<delta>s = max (- 1.5 * smin) 0
      in fold (first_shift_step \<delta>x \<delta>s) [0..<Nx st] (st, 0, 0, 0))"

text \<open>Lines 144 to 149: the second shift.\<close>

definition second_shift_step :: "real \<Rightarrow> real \<Rightarrow> nat \<Rightarrow> 's LinIpm \<Rightarrow> 's LinIpm" where
  "second_shift_step \<delta>x \<delta>s i st =
     (let st = st\<lparr>Y := (Y st)[i := X st i + \<delta>x]\<rparr>
      in st\<lparr>Y := (Y st)[Nx st + Nl st + i := S st i + \<delta>s]\<rparr>)"

definition second_shift :: "'s LinIpm \<times> real \<times> real \<times> real \<Rightarrow> 's LinIpm" where
  "second_shift r =
     (let (st, xdots, xsum, ssum) = r;
          \<delta>x = 0.5 * xdots / ssum;
          \<delta>s = 0.5 * xdots / xsum
      in fold (second_shift_step \<delta>x \<delta>s) [0..<Nx st] st)"

text \<open>The starting point as a whole. \<^verbatim>\<open>xmin := o.X[0]\<close> reads a slice of length \<open>Nx\<close>: with
  \<open>Nx = 0\<close> the index is out of range and Go panics, which is the result \<open>None\<close>.\<close>

definition starting_point :: "dense_solver \<Rightarrow> 's LinIpm \<Rightarrow> 's LinIpm option" where
  "starting_point spd st =
     (let st = initial_guess spd st
      in if Nx st = 0 then None else Some (second_shift (first_shift st)))"

subsection \<open>One iteration\<close>

text \<open>Lines 177 to 190: the residual, and \<^verbatim>\<open>ctx\<close>, \<^verbatim>\<open>btl\<close> and \<^verbatim>\<open>\<mu>\<close> of the current iterate.\<close>

fun residual_step_x :: "nat \<Rightarrow> 's LinIpm \<times> real \<times> real \<Rightarrow> 's LinIpm \<times> real \<times> real" where
  "residual_step_x i (st, ctx, \<mu>) =
     (let st = st\<lparr>R := (R st)[i := Rx st i + (S st i - C st ! i)]\<rparr>;
          st = st\<lparr>R := (R st)[Nx st + Nl st + i := X st i * S st i]\<rparr>
      in (st, ctx + C st ! i * X st i, \<mu> + X st i * S st i))"

fun residual_step_l :: "nat \<Rightarrow> 's LinIpm \<times> real \<Rightarrow> 's LinIpm \<times> real" where
  "residual_step_l i (st, btl) =
     (st\<lparr>R := (R st)[Nx st + i := Rl st i - B st ! i]\<rparr>, btl + B st ! i * L st i)"

definition compute_residual :: "'s LinIpm \<Rightarrow> 's LinIpm \<times> real \<times> real \<times> real" where
  "compute_residual st =
     (let st = st\<lparr>R := set_view 0 (SpMatTrVecMul 1 (A st) (view (Nx st) (Nl st) (Y st))) (R st)\<rparr>;
          st = st\<lparr>R := set_view (Nx st) (SpMatVecMul 1 (A st) (view 0 (Nx st) (Y st))) (R st)\<rparr>;
          (st, ctx, \<mu>) = fold residual_step_x [0..<Nx st] (st, 0, 0);
          (st, btl) = fold residual_step_l [0..<Nl st] (st, 0)
      in (st, ctx, btl, \<mu> / real (Nx st)))"

text \<open>Line 193: the relative error of the objective values.\<close>

definition lerr :: "real \<Rightarrow> real \<Rightarrow> real" where
  "lerr ctx btl = \<bar>ctx - btl\<bar> / (1.0 + \<bar>ctx\<bar>)"

text \<open>Lines 203 to 209: the Jacobian, refilled from \<open>A\<close>, \<open>S\<close> and \<open>X\<close>.\<close>

definition assemble_Jacobian :: "'s LinIpm \<Rightarrow> 's LinIpm" where
  "assemble_Jacobian st =
     (let I = Nx st + Nl st
      in st\<lparr>J := fold (\<lambda>i j. Put (I + i) (I + i) (X st i) (Put (I + i) i (S st i) (Put i (I + i) 1.0 j)))
                       [0..<Nx st] (PutCCMatAndMatT (A st) (Start (J st)))\<rparr>)"

text \<open>Lines 228 to 236: the ratio test on the affine direction and the centering parameter
  \<^verbatim>\<open>\<sigma>\<close>.\<close>

definition control_variables :: "real \<Rightarrow> 's LinIpm \<Rightarrow> real" where
  "control_variables \<mu> st =
     (let (xrmin, srmin) = calc_min_ratios st;
          \<alpha>pa = min 1 xrmin;
          \<alpha>da = min 1 srmin;
          \<mu>aff = fold (\<lambda>i \<mu>aff. \<mu>aff + (X st i - \<alpha>pa * Mdx st i) * (S st i - \<alpha>da * Mds st i))
                       [0..<Nx st] 0;
          \<mu>aff = \<mu>aff / real (Nx st)
      in (\<mu>aff / \<mu>) ^ 3)"

text \<open>Lines 239 to 241: the residual of the corrector.\<close>

definition update_residual_step :: "real \<Rightarrow> real \<Rightarrow> nat \<Rightarrow> 's LinIpm \<Rightarrow> 's LinIpm" where
  "update_residual_step \<sigma> \<mu> i st =
     st\<lparr>R := (R st)[Nx st + Nl st + i := Rs st i + (Mdx st i * Mds st i - \<sigma> * \<mu>)]\<rparr>"

definition update_residual :: "real \<Rightarrow> real \<Rightarrow> 's LinIpm \<Rightarrow> 's LinIpm" where
  "update_residual \<sigma> \<mu> st = fold (update_residual_step \<sigma> \<mu>) [0..<Nx st] st"

text \<open>Lines 250 to 261: the step lengths of the corrected direction and the new iterate.\<close>

definition update_step_xs :: "real \<Rightarrow> real \<Rightarrow> nat \<Rightarrow> 's LinIpm \<Rightarrow> 's LinIpm" where
  "update_step_xs \<alpha>pa \<alpha>da i st =
     (let st = st\<lparr>Y := (Y st)[i := X st i - \<alpha>pa * Mdx st i]\<rparr>
      in st\<lparr>Y := (Y st)[Nx st + Nl st + i := S st i - \<alpha>da * Mds st i]\<rparr>)"

definition update_step_l :: "real \<Rightarrow> nat \<Rightarrow> 's LinIpm \<Rightarrow> 's LinIpm" where
  "update_step_l \<alpha>da i st = st\<lparr>Y := (Y st)[Nx st + i := L st i - \<alpha>da * Mdl st i]\<rparr>"

definition update :: "'s LinIpm \<Rightarrow> 's LinIpm" where
  "update st =
     (let (xrmin, srmin) = calc_min_ratios st;
          \<alpha>pa = min 1 (0.99 * xrmin);
          \<alpha>da = min 1 (0.99 * srmin);
          st = fold (update_step_xs \<alpha>pa \<alpha>da) [0..<Nx st] st
      in fold (update_step_l \<alpha>da) [0..<Nl st] st)"

text \<open>The body of the loop, lines 176 to 261, at the counter \<open>it\<close>. It ends by \<^verbatim>\<open>break\<close>, by
  \<^verbatim>\<open>return\<close> with the error of the linear solver, or at its last statement.\<close>

datatype 's step = Break "'s LinIpm" | Return error "'s LinIpm" | Next "'s LinIpm"

text \<open>Lines 202 to 261, the part of the body after the convergence check: the Jacobian, the
  factorisation (with the solver's set-up in the first iteration), the predictor solve, the
  corrected residual, the corrector solve and the update.\<close>

definition newton_step :: "'s LinSol \<Rightarrow> int \<Rightarrow> real \<Rightarrow> 's LinIpm \<Rightarrow> 's step" where
  "newton_step lis it \<mu> st =
     (let st = assemble_Jacobian st
      in (case (if it = 0 then InitR lis (Lis st) (J st) False False False else Inr (Lis st)) of
            Inl err \<Rightarrow> Return err st
          | Inr h \<Rightarrow>
             (case Fact lis h (J st) of
                Inl err \<Rightarrow> Return err (st\<lparr>Lis := h\<rparr>)
              | Inr h \<Rightarrow>
                 (case SolveR lis h (R st) False of
                    Inl err \<Rightarrow> Return err (st\<lparr>Lis := h\<rparr>)
                  | Inr (mdy, h) \<Rightarrow>
                     (let st = st\<lparr>Mdy := mdy, Lis := h\<rparr>;
                          \<sigma> = control_variables \<mu> st;
                          st = update_residual \<sigma> \<mu> st
                      in (case SolveR lis (Lis st) (R st) False of
                            Inl err \<Rightarrow> Return err st
                          | Inr (mdy, h) \<Rightarrow> Next (update (st\<lparr>Mdy := mdy, Lis := h\<rparr>))))))))"

text \<open>Lines 176 to 200 and the rest of the body: the residual, the convergence check with its
  \<^verbatim>\<open>break\<close>, then the Newton step.\<close>

definition iteration :: "'s LinSol \<Rightarrow> int \<Rightarrow> 's LinIpm \<Rightarrow> 's step" where
  "iteration lis it st =
     (let (st, ctx, btl, \<mu>) = compute_residual st
      in if lerr ctx btl < Tol st then Break st else newton_step lis it \<mu> st)"

subsection \<open>The loop and Solve\<close>

text \<open>\<^verbatim>\<open>for it = 0; it < o.NmaxIt; it++\<close>. The bound \<open>n\<close> is \<^verbatim>\<open>o.NmaxIt\<close>, which no statement of
  the body assigns. The loop is left with the counter and the state when the test fails or the body
  breaks, or by the \<^verbatim>\<open>return\<close> of the body.\<close>

datatype 's loop_exit = AfterLoop int "'s LinIpm" | Returned_in_loop error "'s LinIpm"

function iterations :: "'s LinSol \<Rightarrow> int \<Rightarrow> int \<Rightarrow> 's LinIpm \<Rightarrow> 's loop_exit" where
  "iterations lis n it st =
     (if it < n
      then (case iteration lis it st of
              Break st' \<Rightarrow> AfterLoop it st'
            | Return err st' \<Rightarrow> Returned_in_loop err st'
            | Next st' \<Rightarrow> iterations lis n (it + 1) st')
      else AfterLoop it st)"
  by pat_completeness auto
termination
  by (relation "measure (\<lambda>(lis, n, it, st). nat (n - it))") auto

text \<open>\<open>Solve\<close>: the starting point, the loop, and the check after the loop (lines 264 to 268). The
  result is a panic or the returned \<^verbatim>\<open>err\<close> (\<open>None\<close> for \<^verbatim>\<open>nil\<close>) with the state left behind.\<close>

datatype 's outcome = Panic | Returned "error option" "'s LinIpm"

definition check_convergence :: "'s loop_exit \<Rightarrow> 's outcome" where
  "check_convergence ex =
     (case ex of
        Returned_in_loop err st \<Rightarrow> Returned (Some err) st
      | AfterLoop it st \<Rightarrow>
          Returned (if it = NmaxIt st then Some (Err ''iterations did not converge'') else None) st)"

definition Solve :: "dense_solver \<Rightarrow> 's LinSol \<Rightarrow> bool \<Rightarrow> 's LinIpm \<Rightarrow> 's outcome" where
  "Solve spd lis verbose st =
     (case starting_point spd st of
        None \<Rightarrow> Panic
      | Some st \<Rightarrow> check_convergence (iterations lis (NmaxIt st) 0 st))"

subsection \<open>Allocated buffers\<close>

text \<open>\<open>Init\<close> allocates \<open>Y\<close> and \<open>R\<close> with \<open>Ny = 2 Nx + Nl\<close> entries, so that every index the loops
  of \<open>Solve\<close> use lies inside its view. \<open>Solve\<close> never changes the length of a buffer.\<close>

definition allocated :: "'s LinIpm \<Rightarrow> bool" where
  "allocated st \<longleftrightarrow> length (Y st) = 2 * Nx st + Nl st \<and> length (R st) = 2 * Nx st + Nl st"

subsection \<open>The shifts of the starting point, in the words of the specification\<close>

text \<open>The specification describes the heuristic by the minima of \<open>X\<close> and \<open>S\<close>, the first shifts
  \<open>max(-1.5 min, 0)\<close>, and the dot product and sums "after the shift". These two definitions follow
  that description; they are compared with \<open>first_shift\<close> and \<open>second_shift\<close> below.\<close>

definition spec_first_shifts :: "'s LinIpm \<Rightarrow> real \<times> real" where
  "spec_first_shifts st =
     (max (- 1.5 * Min (X st ` {..<Nx st})) 0, max (- 1.5 * Min (S st ` {..<Nx st})) 0)"

definition spec_second_shifts :: "'s LinIpm \<Rightarrow> real \<times> real" where
  "spec_second_shifts st =
     (let (\<delta>x, \<delta>s) = spec_first_shifts st;
          xdots = (\<Sum>i<Nx st. (X st i + \<delta>x) * (S st i + \<delta>s));
          xsum = (\<Sum>i<Nx st. X st i + \<delta>x);
          ssum = (\<Sum>i<Nx st. S st i + \<delta>s)
      in (0.5 * xdots / ssum, 0.5 * xdots / xsum))"

subsection \<open>The relative error, in the words of the specification\<close>


subsection \<open>The step lengths, in the words of the specification\<close>

text \<open>"For each \<open>i\<close> where \<open>Mdx[i] > 0\<close>, candidate ratio \<open>X[i]/Mdx[i]\<close>; \<open>xrmin\<close> = minimum over
  such \<open>i\<close> (unconstrained/\<open>\<infinity>\<close> semantics if no \<open>i\<close> qualifies -- in this case treat as yielding
  step \<open>1\<close>)". The minimum ratio is \<open>None\<close> when no index qualifies; the step length is then \<open>1\<close>,
  and \<open>min(1, safety \<cdot> xrmin)\<close> otherwise, with the safety factor \<open>1\<close> of the affine test and \<open>0.99\<close>
  of the final test. \<open>spec_sigma\<close> is the centering parameter "\<open>\<sigma> = (\<mu>\<^sub>a\<^sub>f\<^sub>f / \<mu>)\<^sup>3\<close>" with these
  affine step lengths. These definitions are compared with \<open>calc_min_ratios\<close> and
  \<open>control_variables\<close> below.\<close>

definition spec_min_ratio :: "nat \<Rightarrow> (nat \<Rightarrow> real) \<Rightarrow> (nat \<Rightarrow> real) \<Rightarrow> real option" where
  "spec_min_ratio n x dx =
     (if \<exists>i\<in>{..<n}. 0 < dx i then Some (Min ((\<lambda>i. x i / dx i) ` {i \<in> {..<n}. 0 < dx i}))
      else None)"

definition spec_step_length :: "real \<Rightarrow> real option \<Rightarrow> real" where
  "spec_step_length safety r = (case r of None \<Rightarrow> 1 | Some r \<Rightarrow> min 1 (safety * r))"

definition spec_sigma :: "real \<Rightarrow> 's LinIpm \<Rightarrow> real" where
  "spec_sigma \<mu> st =
     (let \<alpha>pa = spec_step_length 1 (spec_min_ratio (Nx st) (X st) (Mdx st));
          \<alpha>da = spec_step_length 1 (spec_min_ratio (Nx st) (S st) (Mds st));
          \<mu>aff = (\<Sum>i<Nx st. (X st i - \<alpha>pa * Mdx st i) * (S st i - \<alpha>da * Mds st i)) / real (Nx st)
      in (\<mu>aff / \<mu>) ^ 3)"

subsection \<open>The iterates of Solve\<close>

text \<open>\<open>iterate spd lis st0 it st\<close>: \<open>Solve\<close>, called on \<open>st0\<close>, arrives at the test of the loop with
  the counter \<open>it\<close> and the state \<open>st\<close>. The first iterate is the starting point; the next one is
  reached when the body runs to its last statement, the update.\<close>

inductive iterate :: "dense_solver \<Rightarrow> 's LinSol \<Rightarrow> 's LinIpm \<Rightarrow> int \<Rightarrow> 's LinIpm \<Rightarrow> bool"
  for spd :: dense_solver and lis :: "'s LinSol" and st0 :: "'s LinIpm" where
  first: "starting_point spd st0 = Some st \<Longrightarrow> iterate spd lis st0 0 st"
| later: "iterate spd lis st0 it st \<Longrightarrow> it < NmaxIt st \<Longrightarrow> iteration lis it st = Next st' \<Longrightarrow>
          iterate spd lis st0 (it + 1) st'"

subsection \<open>Concrete solvers and problems\<close>

text \<open>The dense solve for a problem with one constraint, where \<^verbatim>\<open>AAt\<close> has the single entry
  \<open>a ! 0 ! 0\<close>.\<close>

definition SPDsolve2_1 :: dense_solver where
  "SPDsolve2_1 a b c = ([b ! 0 / a ! 0 ! 0], [c ! 0 / a ! 0 ! 0])"

text \<open>A linear solver that replays a script: its handle is the list of the answers \<open>SolveR\<close> has
  still to give, and \<open>SolveR\<close> fails when the script is used up.\<close>

definition scripted :: "real list list LinSol" where
  "scripted =
     \<lparr>InitR = (\<lambda>h j symmetric verbose timing. Inr h),
      Fact = (\<lambda>h j. Inr h),
      SolveR = (\<lambda>h r tr. case h of [] \<Rightarrow> Inl (Err ''script used up'') | v # vs \<Rightarrow> Inr (v, vs))\<rparr>"

text \<open>The problem \<open>min -x\<^sub>1 - 2 x\<^sub>2\<close> subject to \<open>x\<^sub>1 + x\<^sub>2 = 4\<close>, initialised with a script and
  parameters; its optimum is \<open>x = (0, 4)\<close> with \<open>\<lambda> = -2\<close> and \<open>s = (1, 0)\<close>.\<close>

definition lp1 :: "real list list \<Rightarrow> Prm list \<Rightarrow> real list list LinIpm" where
  "lp1 script prms = Init script [[1, 1]] [4] [- 1, - 2] prms"


text \<open>\<open>lp1\<close> with an iteration limit of \<open>1\<close> and a script of two answers, its starting point, and the
  state after the first iteration. The answers are not the solutions of the Newton systems: the
  properties below hold for whatever the linear solver answers.\<close>

definition lp1_run :: "real list list LinIpm" where
  "lp1_run = lp1 [[1, 1, 0, 1 / 2, 1 / 4], [1, 1, 1, 1 / 2, 1 / 4]] [\<lparr>N = ''nmaxit'', V = 1\<rparr>]"

definition lp1_start :: "real list list LinIpm" where
  "lp1_start = lp1_run\<lparr>Y := [3, 3, - 3 / 2, 13 / 8, 5 / 8]\<rparr>"

definition lp1_after :: "real list list LinIpm" where
  "lp1_after =
     lp1_run\<lparr>Y := [2, 2, - 5 / 2, 9 / 8, 3 / 8],
             Mdy := [1, 1, 1, 1 / 2, 1 / 4],
             R := [9 / 8, 9 / 8, 2, 1097 / 216, 395 / 216],
             J := \<lparr>tm = 5, tn = 5, tmax = 10,
                   entries = [(2, 0, 1), (0, 2, 1), (2, 1, 1), (1, 2, 1), (0, 3, 1),
                              (3, 0, 13 / 8), (3, 3, 3), (1, 4, 1), (4, 1, 5 / 8), (4, 4, 3)]\<rparr>,
             Lis := []\<rparr>"

text \<open>The problem \<open>min -x\<^sub>1 - x\<^sub>2\<close> subject to \<open>-x\<^sub>1 + x\<^sub>2 = 1\<close>, and its state in the first
  iteration after the predictor solve: \<open>Y\<close> is the starting point, \<open>R\<close> and \<open>J\<close> are the residual and
  the Jacobian there, and \<open>Mdy\<close> is the solution of the Newton system \<open>J mdy = R\<close>.\<close>

definition lp2 :: "real list list LinIpm" where
  "lp2 = Init [] [[- 1, 1]] [1] [- 1, - 1] []"

definition lp2_predicted :: "real list list LinIpm" where
  "lp2_predicted =
     lp2\<lparr>Y := [5 / 8, 13 / 8, 0, 3 / 4, 3 / 4],
         R := [7 / 4, 7 / 4, 0, 15 / 32, 39 / 32],
         J := \<lparr>tm = 5, tn = 5, tmax = 10,
               entries = [(2, 0, - 1), (0, 2, - 1), (2, 1, 1), (1, 2, 1), (0, 3, 1),
                          (3, 0, 3 / 4), (3, 3, 5 / 8), (1, 4, 1), (4, 1, 3 / 4), (4, 4, 13 / 8)]\<rparr>,
         Mdy := [- 65 / 54, - 65 / 54, 4 / 9, 79 / 36, 47 / 36]\<rparr>"

text \<open>The same problem run for one iteration with a scripted linear solver whose two answers are
  the solutions of the two Newton systems of that iteration (\<open>lp2_run_Newton_systems\<close> below):
  the configuration, the starting point, the state after the predictor solve (that of
  \<open>lp2_predicted\<close>, with the remaining script as handle), the state after the corrector solve and
  the state after the update.\<close>

definition lp2_run :: "real list list LinIpm" where
  "lp2_run =
     Init [[- 65 / 54, - 65 / 54, 4 / 9, 79 / 36, 47 / 36],
           [- 14095886779 / 3234828879, - 14095886779 / 3234828879, - 68 / 2187,
            15037 / 8748, 15581 / 8748]]
          [[- 1, 1]] [1] [- 1, - 1] [\<lparr>N = ''nmaxit'', V = 1\<rparr>]"

definition lp2_run_start :: "real list list LinIpm" where
  "lp2_run_start = lp2_run\<lparr>Y := [5 / 8, 13 / 8, 0, 3 / 4, 3 / 4]\<rparr>"

definition lp2_run_predicted :: "real list list LinIpm" where
  "lp2_run_predicted =
     lp2_predicted\<lparr>NmaxIt := 1,
                   Lis := [[- 14095886779 / 3234828879, - 14095886779 / 3234828879, - 68 / 2187,
                            15037 / 8748, 15581 / 8748]]\<rparr>"

definition lp2_run_corrected :: "real list list LinIpm" where
  "lp2_run_corrected =
     lp2_run_predicted\<lparr>R := [7 / 4, 7 / 4, 0, - 8410884113 / 3833871264, - 1433396185 / 3833871264],
                       Mdy := [- 14095886779 / 3234828879, - 14095886779 / 3234828879, - 68 / 2187,
                               15037 / 8748, 15581 / 8748],
                       Lis := []\<rparr>"

definition lp2_run_after :: "real list list LinIpm" where
  "lp2_run_after =
     lp2_run_corrected\<lparr>Y := [5 / 8, 13 / 8, 5049 / 389525, 208311 / 6232400, 3 / 400]\<rparr>"

text \<open>The product of the matrix a triplet holds (entries at the same place add up) with a vector,
  to check an answer of a linear solver.\<close>

definition Triplet_times :: "Triplet \<Rightarrow> real list \<Rightarrow> real list" where
  "Triplet_times t v =
     map (\<lambda>i. sum_list (map (\<lambda>(r, c, x). if r = i then x * v ! c else 0) (entries t))) [0..<tm t]"

text \<open>The problem \<open>min x\<^sub>1\<close> subject to \<open>x\<^sub>2 = 1\<close>: the heuristic starts it at its optimal
  vertex.\<close>

definition lp3 :: "real list list LinIpm" where
  "lp3 = Init [] [[0, 1]] [1] [1, 0] []"

section \<open>Properties\<close>

subsection \<open>Arithmetic and sums\<close>

lemma int_of_float64_of_int: "int_of_float64 (of_int k) = k"
  by (simp add: int_of_float64_def)

lemma Init_nmaxit_fold:
  "fold (\<lambda>p n. if N p = ''nmaxit'' then int_of_float64 (V p) else n) prms n0 =
     (case filter (\<lambda>p. N p = ''nmaxit'') prms of
        [] \<Rightarrow> n0
      | p # ps \<Rightarrow> int_of_float64 (V (last (p # ps))))"
proof (induction prms arbitrary: n0)
  case Nil
  show ?case by simp
next
  case (Cons q prms)
  show ?case
    by (simp add: Cons.IH split: list.splits)
qed

lemma fold_sum_upt: "fold (\<lambda>i a. a + f i) [0..<k] (a0::real) = a0 + (\<Sum>i<k. f i)"
  by (induction k) simp_all

lemma sum_list_upt: "sum_list (map f [0..<n]) = (\<Sum>k<n. f k)" for f :: "nat \<Rightarrow> real"
  by (induction n) simp_all

lemma first_shift_nonneg:
  fixes f :: "nat \<Rightarrow> real"
  assumes "i < n"
  shows "0 \<le> f i + max (- 1.5 * Min (f ` {..<n})) 0"
proof -
  have "Min (f ` {..<n}) \<le> f i"
    using assms by (intro Min_le) auto
  then show ?thesis by (cases "Min (f ` {..<n}) < 0") (simp_all add: max_def)
qed

lemma dot_positive_sums_positive:
  fixes a b :: "nat \<Rightarrow> real"
  assumes nonneg: "\<forall>i<n. 0 \<le> a i \<and> 0 \<le> b i" and pos: "0 < (\<Sum>i<n. a i * b i)"
  shows "0 < (\<Sum>i<n. a i) \<and> 0 < (\<Sum>i<n. b i)"
proof -
  have "\<exists>i<n. 0 < a i * b i"
  proof (rule ccontr)
    assume "\<not> (\<exists>i<n. 0 < a i * b i)"
    then have "(\<Sum>i<n. a i * b i) \<le> 0"
      by (intro sum_nonpos) (metis lessThan_iff not_less)
    with pos show False by simp
  qed
  then obtain i where i: "i < n" "0 < a i * b i" by blast
  with nonneg have ai: "0 < a i" and bi: "0 < b i"
    by (auto simp: zero_less_mult_iff dest: spec [of _ i])
  have "a i \<le> (\<Sum>i<n. a i)"
    using nonneg i(1) by (intro member_le_sum) auto
  moreover have "b i \<le> (\<Sum>i<n. b i)"
    using nonneg i(1) by (intro member_le_sum) auto
  ultimately show ?thesis using ai bi by linarith
qed

text \<open>A step \<open>x - \<alpha> m\<close> with \<open>\<alpha> = min 1 (0.99 r)\<close> keeps a positive \<open>x\<close> positive when \<open>r\<close> is \<open>0\<close>, or is
  a ratio of positive numbers and at most \<open>x / m\<close> where \<open>m\<close> is positive.\<close>

lemma damped_step_positive:
  fixes x m r :: real
  assumes x: "0 < x" and r: "0 \<le> r" and bound: "0 < m \<Longrightarrow> r \<le> x / m"
  shows "0 < x - min 1 (0.99 * r) * m"
proof (cases "0 < m")
  case True
  from bound [OF True] True have "r * m \<le> x" by (simp add: pos_le_divide_eq)
  moreover have "min 1 (0.99 * r) * m \<le> 0.99 * r * m"
    using True by (intro mult_right_mono) simp_all
  ultimately have "min 1 (0.99 * r) * m \<le> 0.99 * x" by simp
  with x show ?thesis by simp
next
  case False
  have "0 \<le> min 1 (0.99 * r)" using r by simp
  with False have "min 1 (0.99 * r) * m \<le> 0" by (simp add: mult_nonneg_nonpos)
  with x show ?thesis by simp
qed

subsection \<open>Views of a buffer\<close>

lemma length_set_view: "length (set_view off v buf) = length buf"
proof -
  have "length (fold (\<lambda>i b. b[off + i := v ! i]) is buf) = length buf" for "is"
    by (induction "is" arbitrary: buf) simp_all
  then show ?thesis by (simp add: set_view_def)
qed

lemma length_add_view: "length (add_view off v buf) = length buf"
proof -
  have "length (fold (\<lambda>i b. b[off + i := b ! (off + i) + v ! i]) is buf) = length buf" for "is"
    by (induction "is" arbitrary: buf) simp_all
  then show ?thesis by (simp add: add_view_def)
qed

lemma nth_set_view:
  assumes "off + length v \<le> length buf"
  shows "set_view off v buf ! j =
           (if off \<le> j \<and> j < off + length v then v ! (j - off) else buf ! j)"
proof -
  have "k \<le> length v \<Longrightarrow>
        length (fold (\<lambda>i b. b[off + i := v ! i]) [0..<k] buf) = length buf \<and>
        fold (\<lambda>i b. b[off + i := v ! i]) [0..<k] buf ! j =
          (if off \<le> j \<and> j < off + k then v ! (j - off) else buf ! j)" for k
  proof (induction k)
    case 0
    show ?case by simp
  next
    case (Suc k)
    then show ?case
      using assms by (auto simp: nth_list_update less_Suc_eq)
  qed
  from this [of "length v"] show ?thesis by (simp add: set_view_def)
qed

lemma nth_add_view:
  assumes "off + length v \<le> length buf"
  shows "add_view off v buf ! j =
           (if off \<le> j \<and> j < off + length v then buf ! j + v ! (j - off) else buf ! j)"
proof -
  have "k \<le> length v \<Longrightarrow>
        length (fold (\<lambda>i b. b[off + i := b ! (off + i) + v ! i]) [0..<k] buf) = length buf \<and>
        fold (\<lambda>i b. b[off + i := b ! (off + i) + v ! i]) [0..<k] buf ! j =
          (if off \<le> j \<and> j < off + k then buf ! j + v ! (j - off) else buf ! j)" for k
  proof (induction k arbitrary: j)
    case 0
    show ?case by simp
  next
    case (Suc k)
    then show ?case
      using assms by (auto simp: nth_list_update less_Suc_eq)
  qed
  from this [of "length v"] show ?thesis by (simp add: add_view_def)
qed

lemma Init_allocated: "allocated (Init solver a b c prms)"
  by (simp add: Init_def allocated_def Let_def)

subsection \<open>The ratio test\<close>

lemma ratio_fold_inv:
  "fold (ratio_step st) [0..<k] (0, 0, True, True) = (xr, sr, fx, fs) \<Longrightarrow>
     (fx \<longrightarrow> xr = 0 \<and> (\<forall>i<k. \<not> 0 < Mdx st i)) \<and>
     (\<not> fx \<longrightarrow> (\<exists>i<k. 0 < Mdx st i \<and> xr = X st i / Mdx st i) \<and>
                 (\<forall>i<k. 0 < Mdx st i \<longrightarrow> xr \<le> X st i / Mdx st i)) \<and>
     (fs \<longrightarrow> sr = 0 \<and> (\<forall>i<k. \<not> 0 < Mds st i)) \<and>
     (\<not> fs \<longrightarrow> (\<exists>i<k. 0 < Mds st i \<and> sr = S st i / Mds st i) \<and>
                 (\<forall>i<k. 0 < Mds st i \<longrightarrow> sr \<le> S st i / Mds st i))"
proof (induction k arbitrary: xr sr fx fs)
  case 0
  then show ?case by simp
next
  case (Suc k)
  obtain xr' sr' fx' fs' where prev: "fold (ratio_step st) [0..<k] (0, 0, True, True) = (xr', sr', fx', fs')"
    by (metis prod_cases4)
  note ih = Suc.IH [OF prev]
  from Suc.prems prev have step: "ratio_step st k (xr', sr', fx', fs') = (xr, sr, fx, fs)"
    by simp
  show ?case
    using ih step
    by (auto simp: less_Suc_eq min_def split: if_splits)
qed

lemma calc_min_ratios_x:
  assumes "calc_min_ratios st = (xr, sr)"
  shows "(xr = 0 \<and> (\<forall>i<Nx st. \<not> 0 < Mdx st i)) \<or>
         ((\<exists>i<Nx st. 0 < Mdx st i \<and> xr = X st i / Mdx st i) \<and>
          (\<forall>i<Nx st. 0 < Mdx st i \<longrightarrow> xr \<le> X st i / Mdx st i))"
proof -
  obtain fx fs where "fold (ratio_step st) [0..<Nx st] (0, 0, True, True) = (xr, sr, fx, fs)"
    using assms by (auto simp: calc_min_ratios_def split: prod.splits)
  from ratio_fold_inv [OF this] show ?thesis by (cases fx) simp_all
qed

lemma calc_min_ratios_s:
  assumes "calc_min_ratios st = (xr, sr)"
  shows "(sr = 0 \<and> (\<forall>i<Nx st. \<not> 0 < Mds st i)) \<or>
         ((\<exists>i<Nx st. 0 < Mds st i \<and> sr = S st i / Mds st i) \<and>
          (\<forall>i<Nx st. 0 < Mds st i \<longrightarrow> sr \<le> S st i / Mds st i))"
proof -
  obtain fx fs where "fold (ratio_step st) [0..<Nx st] (0, 0, True, True) = (xr, sr, fx, fs)"
    using assms by (auto simp: calc_min_ratios_def split: prod.splits)
  from ratio_fold_inv [OF this] show ?thesis by (cases fs) simp_all
qed

lemma calc_min_ratios_no_candidate:
  assumes "\<forall>i<Nx st. \<not> 0 < Mdx st i"
  shows "fst (calc_min_ratios st) = 0"
proof -
  obtain xr sr where cmr: "calc_min_ratios st = (xr, sr)" by (cases "calc_min_ratios st")
  from calc_min_ratios_x [OF cmr] assms show ?thesis by (auto simp: cmr)
qed

text \<open>The result of \<open>calc_min_ratios\<close> against the minimum ratio of the specification: they agree
  when some index qualifies; when none does the code returns \<open>0\<close>, and the step length computed
  from it is \<open>0\<close> where the specification takes the step \<open>1\<close>.\<close>

lemma spec_min_ratio_None: "spec_min_ratio n x dx = None \<longleftrightarrow> (\<forall>i<n. \<not> 0 < dx i)"
  by (auto simp: spec_min_ratio_def)

lemma spec_min_ratio_eq:
  assumes "i < n" and "0 < dx i" and "r = x i / dx i"
    and "\<forall>j<n. 0 < dx j \<longrightarrow> r \<le> x j / dx j"
  shows "spec_min_ratio n x dx = Some r"
proof -
  let ?C = "{i \<in> {..<n}. 0 < dx i}"
  have "Min ((\<lambda>i. x i / dx i) ` ?C) = r"
  proof (rule Min_eqI)
    show "finite ((\<lambda>i. x i / dx i) ` ?C)" by simp
    show "r \<le> y" if "y \<in> (\<lambda>i. x i / dx i) ` ?C" for y
      using that assms(4) by auto
    show "r \<in> (\<lambda>i. x i / dx i) ` ?C"
      using assms(1,2,3) by auto
  qed
  moreover have "\<exists>i\<in>{..<n}. 0 < dx i"
    using assms(1,2) by auto
  ultimately show ?thesis by (simp add: spec_min_ratio_def)
qed

lemma calc_min_ratios_spec:
  "calc_min_ratios st =
     (case spec_min_ratio (Nx st) (X st) (Mdx st) of None \<Rightarrow> 0 | Some r \<Rightarrow> r,
      case spec_min_ratio (Nx st) (S st) (Mds st) of None \<Rightarrow> 0 | Some r \<Rightarrow> r)"
proof -
  obtain xr sr where cmr: "calc_min_ratios st = (xr, sr)" by (cases "calc_min_ratios st")
  from calc_min_ratios_x [OF cmr]
  have x: "xr = (case spec_min_ratio (Nx st) (X st) (Mdx st) of None \<Rightarrow> 0 | Some r \<Rightarrow> r)"
  proof
    assume "xr = 0 \<and> (\<forall>i<Nx st. \<not> 0 < Mdx st i)"
    then show ?thesis
      using spec_min_ratio_None [of "Nx st" "X st" "Mdx st"] by simp
  next
    assume a: "(\<exists>i<Nx st. 0 < Mdx st i \<and> xr = X st i / Mdx st i) \<and>
               (\<forall>i<Nx st. 0 < Mdx st i \<longrightarrow> xr \<le> X st i / Mdx st i)"
    then obtain i where "i < Nx st" "0 < Mdx st i" "xr = X st i / Mdx st i" by blast
    from spec_min_ratio_eq [where x = "X st" and dx = "Mdx st", OF this] a show ?thesis by simp
  qed
  from calc_min_ratios_s [OF cmr]
  have s: "sr = (case spec_min_ratio (Nx st) (S st) (Mds st) of None \<Rightarrow> 0 | Some r \<Rightarrow> r)"
  proof
    assume "sr = 0 \<and> (\<forall>i<Nx st. \<not> 0 < Mds st i)"
    then show ?thesis
      using spec_min_ratio_None [of "Nx st" "S st" "Mds st"] by simp
  next
    assume a: "(\<exists>i<Nx st. 0 < Mds st i \<and> sr = S st i / Mds st i) \<and>
               (\<forall>i<Nx st. 0 < Mds st i \<longrightarrow> sr \<le> S st i / Mds st i)"
    then obtain i where "i < Nx st" "0 < Mds st i" "sr = S st i / Mds st i" by blast
    from spec_min_ratio_eq [where x = "S st" and dx = "Mds st", OF this] a show ?thesis by simp
  qed
  from x s show ?thesis by (simp add: cmr)
qed

lemma step_length_x_spec:
  assumes "\<exists>i<Nx st. 0 < Mdx st i"
  shows "min 1 (c * fst (calc_min_ratios st)) =
         spec_step_length c (spec_min_ratio (Nx st) (X st) (Mdx st))"
proof -
  from assms obtain r where "spec_min_ratio (Nx st) (X st) (Mdx st) = Some r"
    using spec_min_ratio_None [of "Nx st" "X st" "Mdx st"] by (cases "spec_min_ratio (Nx st) (X st) (Mdx st)") auto
  then show ?thesis
    by (simp add: calc_min_ratios_spec spec_step_length_def)
qed

lemma step_length_s_spec:
  assumes "\<exists>i<Nx st. 0 < Mds st i"
  shows "min 1 (c * snd (calc_min_ratios st)) =
         spec_step_length c (spec_min_ratio (Nx st) (S st) (Mds st))"
proof -
  from assms obtain r where "spec_min_ratio (Nx st) (S st) (Mds st) = Some r"
    using spec_min_ratio_None [of "Nx st" "S st" "Mds st"] by (cases "spec_min_ratio (Nx st) (S st) (Mds st)") auto
  then show ?thesis
    by (simp add: calc_min_ratios_spec spec_step_length_def)
qed

lemma step_length_x_no_candidate:
  assumes "\<forall>i<Nx st. \<not> 0 < Mdx st i"
  shows "min 1 (c * fst (calc_min_ratios st)) = 0 \<and>
         spec_step_length c (spec_min_ratio (Nx st) (X st) (Mdx st)) = 1"
  using assms spec_min_ratio_None [of "Nx st" "X st" "Mdx st"]
  by (simp add: calc_min_ratios_spec spec_step_length_def)

subsection \<open>The fields a loop leaves as they are\<close>

lemma fold_Y_frame:
  assumes "\<And>i st. f i st = st\<lparr>Y := Y (f i st)\<rparr> \<and> length (Y (f i st)) = length (Y st)"
  shows "\<exists>ys. fold f is st = st\<lparr>Y := ys\<rparr> \<and> length ys = length (Y st)"
proof (induction "is" arbitrary: st)
  case Nil
  show ?case by (rule exI [of _ "Y st"]) simp
next
  case (Cons i "is")
  obtain y1 where y1: "f i st = st\<lparr>Y := y1\<rparr>" "length y1 = length (Y st)"
    using assms by blast
  obtain ys where ys: "fold f is (st\<lparr>Y := y1\<rparr>) = st\<lparr>Y := y1\<rparr>\<lparr>Y := ys\<rparr>"
    "length ys = length (Y (st\<lparr>Y := y1\<rparr>))"
    using Cons.IH by blast
  show ?case
    by (rule exI [of _ ys]) (use y1 ys in simp)
qed

lemma second_shift_step_frame:
  "second_shift_step \<delta>x \<delta>s i st = st\<lparr>Y := Y (second_shift_step \<delta>x \<delta>s i st)\<rparr> \<and>
   length (Y (second_shift_step \<delta>x \<delta>s i st)) = length (Y st)"
  by (simp add: second_shift_step_def Let_def)

lemma update_step_xs_frame:
  "update_step_xs \<alpha>pa \<alpha>da i st = st\<lparr>Y := Y (update_step_xs \<alpha>pa \<alpha>da i st)\<rparr> \<and>
   length (Y (update_step_xs \<alpha>pa \<alpha>da i st)) = length (Y st)"
  by (simp add: update_step_xs_def Let_def)

lemma update_step_l_frame:
  "update_step_l \<alpha>da i st = st\<lparr>Y := Y (update_step_l \<alpha>da i st)\<rparr> \<and>
   length (Y (update_step_l \<alpha>da i st)) = length (Y st)"
  by (simp add: update_step_l_def)

lemma update_frame: "\<exists>ys. update st = st\<lparr>Y := ys\<rparr> \<and> length ys = length (Y st)"
proof -
  obtain xr sr where cmr: "calc_min_ratios st = (xr, sr)" by (cases "calc_min_ratios st")
  obtain y1 where y1: "fold (update_step_xs (min 1 (0.99 * xr)) (min 1 (0.99 * sr))) [0..<Nx st] st =
      st\<lparr>Y := y1\<rparr>" "length y1 = length (Y st)"
    using fold_Y_frame [of "update_step_xs (min 1 (0.99 * xr)) (min 1 (0.99 * sr))", OF update_step_xs_frame]
    by blast
  obtain y2 where y2: "fold (update_step_l (min 1 (0.99 * sr))) [0..<Nl st] (st\<lparr>Y := y1\<rparr>) =
      st\<lparr>Y := y1\<rparr>\<lparr>Y := y2\<rparr>" "length y2 = length (Y (st\<lparr>Y := y1\<rparr>))"
    using fold_Y_frame [of "update_step_l (min 1 (0.99 * sr))", OF update_step_l_frame]
    by blast
  have "update st = st\<lparr>Y := y2\<rparr>"
    unfolding update_def cmr Let_def prod.case y1(1) using y2(1) by simp
  then show ?thesis using y1(2) y2(2) by auto
qed

lemma first_shift_fold_fst:
  "fst (fold (first_shift_step \<delta>x \<delta>s) is (st, a, b, c)) = fold (second_shift_step \<delta>x \<delta>s) is st"
  by (induction "is" arbitrary: st a b c) (simp_all add: second_shift_step_def Let_def)

lemma initial_guess_frame:
  "\<exists>ys. initial_guess spd st = st\<lparr>Y := ys\<rparr> \<and> length ys = length (Y st)"
proof -
  have "initial_guess spd st = st\<lparr>Y := Y (initial_guess spd st)\<rparr> \<and>
        length (Y (initial_guess spd st)) = length (Y st)"
    by (simp add: initial_guess_def Let_def length_set_view length_add_view split: prod.split)
  then show ?thesis by blast
qed

lemma starting_point_eq:
  "starting_point spd st =
     (if Nx st = 0 then None else Some (second_shift (first_shift (initial_guess spd st))))"
proof -
  obtain ys where "initial_guess spd st = st\<lparr>Y := ys\<rparr>" using initial_guess_frame by blast
  then show ?thesis by (simp add: starting_point_def Let_def)
qed

lemma starting_point_frame:
  assumes "starting_point spd st = Some st1"
  shows "\<exists>ys. st1 = st\<lparr>Y := ys\<rparr> \<and> length ys = length (Y st)"
proof -
  obtain y0 where y0: "initial_guess spd st = st\<lparr>Y := y0\<rparr>" "length y0 = length (Y st)"
    using initial_guess_frame by blast
  obtain st' xdots xsum ssum where fs: "first_shift (st\<lparr>Y := y0\<rparr>) = (st', xdots, xsum, ssum)"
    by (metis prod_cases4)
  obtain \<delta>x \<delta>s where "st' = fst (fold (first_shift_step \<delta>x \<delta>s) [0..<Nx st] (st\<lparr>Y := y0\<rparr>, 0, 0, 0))"
    using fs by (auto simp: first_shift_def Let_def split: prod.splits) (metis fst_conv)
  then have "st' = fold (second_shift_step \<delta>x \<delta>s) [0..<Nx st] (st\<lparr>Y := y0\<rparr>)"
    by (simp add: first_shift_fold_fst)
  then obtain y1 where y1: "st' = st\<lparr>Y := y1\<rparr>" "length y1 = length y0"
    using fold_Y_frame [of "second_shift_step \<delta>x \<delta>s" "[0..<Nx st]" "st\<lparr>Y := y0\<rparr>",
        OF second_shift_step_frame] by auto
  obtain y2 where y2: "second_shift (st', xdots, xsum, ssum) = st\<lparr>Y := y2\<rparr>" "length y2 = length y1"
    using fold_Y_frame [of "second_shift_step (0.5 * xdots / ssum) (0.5 * xdots / xsum)" "[0..<Nx st]"
        "st\<lparr>Y := y1\<rparr>", OF second_shift_step_frame]
    by (auto simp: second_shift_def y1(1))
  from assms have "st1 = second_shift (first_shift (initial_guess spd st))"
    by (simp add: starting_point_eq split: if_splits)
  then show ?thesis using y0 fs y1 y2 by auto
qed

lemma update_residual_frame:
  "\<exists>rs. fold (update_residual_step \<sigma> \<mu>) is st = st\<lparr>R := rs\<rparr> \<and> length rs = length (R st)"
proof (induction "is" arbitrary: st)
  case Nil
  show ?case by (rule exI [of _ "R st"]) simp
next
  case (Cons i "is")
  define st1 where "st1 = update_residual_step \<sigma> \<mu> i st"
  have st1: "st1 = st\<lparr>R := R st1\<rparr>" "length (R st1) = length (R st)"
    by (simp_all add: st1_def update_residual_step_def)
  obtain rs where rs: "fold (update_residual_step \<sigma> \<mu>) is st1 = st1\<lparr>R := rs\<rparr>"
    "length rs = length (R st1)"
    using Cons.IH by blast
  have "fold (update_residual_step \<sigma> \<mu>) (i # is) st = st1\<lparr>R := rs\<rparr>"
    using rs(1) by (simp only: fold_simps st1_def)
  also have "\<dots> = st\<lparr>R := rs\<rparr>"
    by (subst st1(1)) simp
  finally show ?case using rs(2) st1(2) by auto
qed

subsection \<open>The loops over the views, entry by entry\<close>

lemma xs_fold_generic:
  assumes len: "length (Y st) = 2 * Nx st + Nl st" and "k \<le> Nx st"
    and step: "\<And>i ys. i < Nx st \<Longrightarrow> length ys = length (Y st) \<Longrightarrow>
                 f i (st\<lparr>Y := ys\<rparr>) =
                   st\<lparr>Y := ys[i := ys ! i + dx i,
                               Nx st + Nl st + i := ys ! (Nx st + Nl st + i) + ds i]\<rparr>"
  shows "\<exists>ys. fold f [0..<k] st = st\<lparr>Y := ys\<rparr> \<and>
           length ys = length (Y st) \<and>
           (\<forall>i<Nx st. ys ! i = (if i < k then Y st ! i + dx i else Y st ! i) \<and>
                      ys ! (Nx st + Nl st + i) =
                        (if i < k then Y st ! (Nx st + Nl st + i) + ds i
                         else Y st ! (Nx st + Nl st + i))) \<and>
           (\<forall>j<Nl st. ys ! (Nx st + j) = Y st ! (Nx st + j))"
  using assms(2)
proof (induction k)
  case 0
  show ?case by (rule exI [of _ "Y st"]) simp
next
  case (Suc k)
  then obtain ys where ys: "fold f [0..<k] st = st\<lparr>Y := ys\<rparr>"
    "length ys = length (Y st)"
    "\<forall>i<Nx st. ys ! i = (if i < k then Y st ! i + dx i else Y st ! i) \<and>
                      ys ! (Nx st + Nl st + i) =
                        (if i < k then Y st ! (Nx st + Nl st + i) + ds i
                         else Y st ! (Nx st + Nl st + i))"
    "\<forall>j<Nl st. ys ! (Nx st + j) = Y st ! (Nx st + j)"
    by auto
  let ?ys = "ys[k := ys ! k + dx k, Nx st + Nl st + k := ys ! (Nx st + Nl st + k) + ds k]"
  have len': "length ys = 2 * Nx st + Nl st" using ys(2) len by simp
  have k: "k < Nx st" using Suc.prems by simp
  have "fold f [0..<Suc k] st = st\<lparr>Y := ?ys\<rparr>"
    using step [OF k ys(2)] by (simp add: ys(1))
  moreover have "length ?ys = length (Y st)" using ys(2) by simp
  moreover have "\<forall>i<Nx st. ?ys ! i = (if i < Suc k then Y st ! i + dx i else Y st ! i) \<and>
                      ?ys ! (Nx st + Nl st + i) =
                        (if i < Suc k then Y st ! (Nx st + Nl st + i) + ds i
                         else Y st ! (Nx st + Nl st + i))"
    using ys(3) len' k by (auto simp: nth_list_update less_Suc_eq)
  moreover have "\<forall>j<Nl st. ?ys ! (Nx st + j) = Y st ! (Nx st + j)"
    using ys(4) len' k by (auto simp: nth_list_update)
  ultimately show ?case by blast
qed

lemma second_shift_fold_upto:
  assumes "length (Y st) = 2 * Nx st + Nl st" and "k \<le> Nx st"
  shows "\<exists>ys. fold (second_shift_step \<delta>x \<delta>s) [0..<k] st = st\<lparr>Y := ys\<rparr> \<and>
           length ys = length (Y st) \<and>
           (\<forall>i<Nx st. ys ! i = (if i < k then Y st ! i + \<delta>x else Y st ! i) \<and>
                      ys ! (Nx st + Nl st + i) =
                        (if i < k then Y st ! (Nx st + Nl st + i) + \<delta>s
                         else Y st ! (Nx st + Nl st + i))) \<and>
           (\<forall>j<Nl st. ys ! (Nx st + j) = Y st ! (Nx st + j))"
  by (rule xs_fold_generic [OF assms])
     (simp add: second_shift_step_def X_def S_def Let_def)

lemma second_shift_fold:
  assumes "length (Y st) = 2 * Nx st + Nl st"
  shows "\<exists>ys. fold (second_shift_step \<delta>x \<delta>s) [0..<Nx st] st = st\<lparr>Y := ys\<rparr> \<and>
           length ys = length (Y st) \<and>
           (\<forall>i<Nx st. ys ! i = Y st ! i + \<delta>x \<and>
                      ys ! (Nx st + Nl st + i) = Y st ! (Nx st + Nl st + i) + \<delta>s) \<and>
           (\<forall>j<Nl st. ys ! (Nx st + j) = Y st ! (Nx st + j))"
proof -
  have "\<exists>ys. fold (second_shift_step \<delta>x \<delta>s) [0..<Nx st] st = st\<lparr>Y := ys\<rparr> \<and>
           length ys = length (Y st) \<and>
           (\<forall>i<Nx st. ys ! i = (if i < Nx st then Y st ! i + \<delta>x else Y st ! i) \<and>
                      ys ! (Nx st + Nl st + i) =
                        (if i < Nx st then Y st ! (Nx st + Nl st + i) + \<delta>s
                         else Y st ! (Nx st + Nl st + i))) \<and>
           (\<forall>j<Nl st. ys ! (Nx st + j) = Y st ! (Nx st + j))"
    by (rule xs_fold_generic [OF assms order_refl])
       (simp add: second_shift_step_def X_def S_def Let_def)
  then show ?thesis by auto
qed

lemma update_xs_fold:
  assumes "length (Y st) = 2 * Nx st + Nl st"
  shows "\<exists>ys. fold (update_step_xs \<alpha>pa \<alpha>da) [0..<Nx st] st = st\<lparr>Y := ys\<rparr> \<and>
           length ys = length (Y st) \<and>
           (\<forall>i<Nx st. ys ! i = Y st ! i - \<alpha>pa * Mdx st i \<and>
                      ys ! (Nx st + Nl st + i) = Y st ! (Nx st + Nl st + i) - \<alpha>da * Mds st i) \<and>
           (\<forall>j<Nl st. ys ! (Nx st + j) = Y st ! (Nx st + j))"
proof -
  have "\<exists>ys. fold (update_step_xs \<alpha>pa \<alpha>da) [0..<Nx st] st = st\<lparr>Y := ys\<rparr> \<and>
           length ys = length (Y st) \<and>
           (\<forall>i<Nx st. ys ! i = (if i < Nx st then Y st ! i + (- \<alpha>pa * Mdx st i) else Y st ! i) \<and>
                      ys ! (Nx st + Nl st + i) =
                        (if i < Nx st then Y st ! (Nx st + Nl st + i) + (- \<alpha>da * Mds st i)
                         else Y st ! (Nx st + Nl st + i))) \<and>
           (\<forall>j<Nl st. ys ! (Nx st + j) = Y st ! (Nx st + j))"
    by (rule xs_fold_generic [OF assms order_refl])
       (simp add: update_step_xs_def X_def S_def Mdx_def Mds_def Let_def)
  then show ?thesis by auto
qed

lemma update_l_fold:
  assumes len: "length (Y st) = 2 * Nx st + Nl st" and "k \<le> Nl st"
  shows "\<exists>ys. fold (update_step_l \<alpha>da) [0..<k] st = st\<lparr>Y := ys\<rparr> \<and>
           length ys = length (Y st) \<and>
           (\<forall>i<Nx st. ys ! i = Y st ! i \<and>
                      ys ! (Nx st + Nl st + i) = Y st ! (Nx st + Nl st + i)) \<and>
           (\<forall>j<Nl st. ys ! (Nx st + j) =
               (if j < k then Y st ! (Nx st + j) - \<alpha>da * Mdl st j else Y st ! (Nx st + j)))"
  using assms(2)
proof (induction k)
  case 0
  show ?case by (rule exI [of _ "Y st"]) simp
next
  case (Suc k)
  then obtain ys where ys: "fold (update_step_l \<alpha>da) [0..<k] st = st\<lparr>Y := ys\<rparr>"
    "length ys = length (Y st)"
    "\<forall>i<Nx st. ys ! i = Y st ! i \<and> ys ! (Nx st + Nl st + i) = Y st ! (Nx st + Nl st + i)"
    "\<forall>j<Nl st. ys ! (Nx st + j) =
               (if j < k then Y st ! (Nx st + j) - \<alpha>da * Mdl st j else Y st ! (Nx st + j))"
    by auto
  let ?ys = "ys[Nx st + k := ys ! (Nx st + k) - \<alpha>da * Mdl st k]"
  have len': "length ys = 2 * Nx st + Nl st" using ys(2) len by simp
  have k: "k < Nl st" using Suc.prems by simp
  have "fold (update_step_l \<alpha>da) [0..<Suc k] st = st\<lparr>Y := ?ys\<rparr>"
    by (simp add: ys(1) update_step_l_def L_def Mdl_def)
  moreover have "length ?ys = length (Y st)" using ys(2) by simp
  moreover have "\<forall>i<Nx st. ?ys ! i = Y st ! i \<and> ?ys ! (Nx st + Nl st + i) = Y st ! (Nx st + Nl st + i)"
    using ys(3) len' k by (auto simp: nth_list_update)
  moreover have "\<forall>j<Nl st. ?ys ! (Nx st + j) =
               (if j < Suc k then Y st ! (Nx st + j) - \<alpha>da * Mdl st j else Y st ! (Nx st + j))"
    using ys(4) len' k by (auto simp: nth_list_update less_Suc_eq)
  ultimately show ?case by blast
qed

lemma update_eq:
  assumes len: "length (Y st) = 2 * Nx st + Nl st"
  shows "\<exists>ys. update st = st\<lparr>Y := ys\<rparr> \<and> length ys = length (Y st) \<and>
           (\<forall>i<Nx st. ys ! i = X st i - min 1 (0.99 * fst (calc_min_ratios st)) * Mdx st i \<and>
                      ys ! (Nx st + Nl st + i) =
                        S st i - min 1 (0.99 * snd (calc_min_ratios st)) * Mds st i) \<and>
           (\<forall>j<Nl st. ys ! (Nx st + j) =
                        L st j - min 1 (0.99 * snd (calc_min_ratios st)) * Mdl st j)"
proof -
  obtain xrmin srmin where cmr: "calc_min_ratios st = (xrmin, srmin)"
    by (cases "calc_min_ratios st")
  define \<alpha>pa where "\<alpha>pa = min 1 (0.99 * xrmin)"
  define \<alpha>da where "\<alpha>da = min 1 (0.99 * srmin)"
  obtain ys where ys: "fold (update_step_xs \<alpha>pa \<alpha>da) [0..<Nx st] st = st\<lparr>Y := ys\<rparr>"
    "length ys = length (Y st)"
    "\<forall>i<Nx st. ys ! i = Y st ! i - \<alpha>pa * Mdx st i \<and>
                      ys ! (Nx st + Nl st + i) = Y st ! (Nx st + Nl st + i) - \<alpha>da * Mds st i"
    "\<forall>j<Nl st. ys ! (Nx st + j) = Y st ! (Nx st + j)"
    using update_xs_fold [OF len] by blast
  let ?st = "st\<lparr>Y := ys\<rparr>"
  have len2: "length (Y ?st) = 2 * Nx ?st + Nl ?st" using ys(2) len by simp
  obtain zs where zs: "fold (update_step_l \<alpha>da) [0..<Nl ?st] ?st = ?st\<lparr>Y := zs\<rparr>"
    "length zs = length (Y ?st)"
    "\<forall>i<Nx ?st. zs ! i = Y ?st ! i \<and> zs ! (Nx ?st + Nl ?st + i) = Y ?st ! (Nx ?st + Nl ?st + i)"
    "\<forall>j<Nl ?st. zs ! (Nx ?st + j) =
               (if j < Nl ?st then Y ?st ! (Nx ?st + j) - \<alpha>da * Mdl ?st j else Y ?st ! (Nx ?st + j))"
    using update_l_fold [OF len2 order_refl] by blast
  have "update st = st\<lparr>Y := zs\<rparr>"
    unfolding update_def cmr Let_def prod.case \<alpha>pa_def [symmetric] \<alpha>da_def [symmetric] ys(1)
    using zs(1) by simp
  moreover have "length zs = length (Y st)" using zs(2) ys(2) by simp
  moreover have "\<forall>i<Nx st. zs ! i = X st i - \<alpha>pa * Mdx st i \<and>
                      zs ! (Nx st + Nl st + i) = S st i - \<alpha>da * Mds st i"
    using zs(3) ys(3) by (simp add: X_def S_def)
  moreover have "\<forall>j<Nl st. zs ! (Nx st + j) = L st j - \<alpha>da * Mdl st j"
    using zs(4) ys(4) by (simp add: L_def Mdl_def)
  ultimately show ?thesis
    unfolding \<alpha>pa_def \<alpha>da_def cmr by auto
qed

lemma update_positive:
  assumes len: "length (Y st) = 2 * Nx st + Nl st"
    and pos: "\<forall>i<Nx st. 0 < X st i \<and> 0 < S st i"
  shows "\<forall>i<Nx st. 0 < X (update st) i \<and> 0 < S (update st) i"
proof (intro allI impI)
  fix i assume i: "i < Nx st"
  obtain xr sr where cmr: "calc_min_ratios st = (xr, sr)" by (cases "calc_min_ratios st")
  obtain ys where ys: "update st = st\<lparr>Y := ys\<rparr>"
    "\<forall>i<Nx st. ys ! i = X st i - min 1 (0.99 * fst (calc_min_ratios st)) * Mdx st i \<and>
                      ys ! (Nx st + Nl st + i) =
                        S st i - min 1 (0.99 * snd (calc_min_ratios st)) * Mds st i"
    using update_eq [OF len] by blast
  have xr0: "0 \<le> xr"
    using calc_min_ratios_x [OF cmr] pos by (auto intro: divide_nonneg_pos less_imp_le)
  have sr0: "0 \<le> sr"
    using calc_min_ratios_s [OF cmr] pos by (auto intro: divide_nonneg_pos less_imp_le)
  have xb: "0 < Mdx st i \<Longrightarrow> xr \<le> X st i / Mdx st i"
    using calc_min_ratios_x [OF cmr] i by auto
  have sb: "0 < Mds st i \<Longrightarrow> sr \<le> S st i / Mds st i"
    using calc_min_ratios_s [OF cmr] i by auto
  have "0 < X st i - min 1 (0.99 * xr) * Mdx st i"
    using pos i xr0 xb by (intro damped_step_positive) auto
  moreover have "0 < S st i - min 1 (0.99 * sr) * Mds st i"
    using pos i sr0 sb by (intro damped_step_positive) auto
  ultimately show "0 < X (update st) i \<and> 0 < S (update st) i"
    using ys(2) i by (simp add: ys(1) X_def S_def cmr)
qed

lemma residual_x_fold:
  "\<exists>rs. fold residual_step_x [0..<k] (st, c, m) =
          (st\<lparr>R := rs\<rparr>, c + (\<Sum>i<k. C st ! i * X st i), m + (\<Sum>i<k. X st i * S st i)) \<and>
        length rs = length (R st)"
proof (induction k)
  case 0
  show ?case by (rule exI [of _ "R st"]) simp
next
  case (Suc k)
  then obtain rs where rs: "fold residual_step_x [0..<k] (st, c, m) =
          (st\<lparr>R := rs\<rparr>, c + (\<Sum>i<k. C st ! i * X st i), m + (\<Sum>i<k. X st i * S st i))"
    "length rs = length (R st)"
    by auto
  show ?case
    by (rule exI [of _ "rs[k := rs ! k + (S st k - C st ! k), Nx st + Nl st + k := X st k * S st k]"])
       (simp add: rs Let_def X_def S_def Rx_def)
qed

lemma residual_l_fold:
  "\<exists>rs. fold residual_step_l [0..<k] (st, c) =
          (st\<lparr>R := rs\<rparr>, c + (\<Sum>i<k. B st ! i * L st i)) \<and> length rs = length (R st)"
proof (induction k)
  case 0
  show ?case by (rule exI [of _ "R st"]) simp
next
  case (Suc k)
  then obtain rs where rs: "fold residual_step_l [0..<k] (st, c) =
          (st\<lparr>R := rs\<rparr>, c + (\<Sum>i<k. B st ! i * L st i))" "length rs = length (R st)"
    by auto
  show ?case
    by (rule exI [of _ "rs[Nx st + k := rs ! (Nx st + k) - B st ! k]"])
       (simp add: rs L_def Rl_def)
qed

lemma compute_residual_eq:
  "\<exists>rs. compute_residual st =
          (st\<lparr>R := rs\<rparr>, (\<Sum>i<Nx st. C st ! i * X st i), (\<Sum>i<Nl st. B st ! i * L st i),
           (\<Sum>i<Nx st. X st i * S st i) / real (Nx st)) \<and>
        length rs = length (R st)"
proof -
  define r1 where "r1 = set_view 0 (SpMatTrVecMul 1 (A st) (view (Nx st) (Nl st) (Y st))) (R st)"
  define r2 where "r2 = set_view (Nx st) (SpMatVecMul 1 (A st) (view 0 (Nx st) (Y st))) r1"
  have len2: "length r2 = length (R st)" by (simp add: r2_def r1_def length_set_view)
  obtain r3 where r3: "fold residual_step_x [0..<Nx st] (st\<lparr>R := r2\<rparr>, 0, 0) =
          (st\<lparr>R := r3\<rparr>, (\<Sum>i<Nx st. C st ! i * X st i), (\<Sum>i<Nx st. X st i * S st i))"
      "length r3 = length r2"
    using residual_x_fold [of "Nx st" "st\<lparr>R := r2\<rparr>" 0 0] by (auto simp: X_def S_def)
  obtain r4 where r4: "fold residual_step_l [0..<Nl st] (st\<lparr>R := r3\<rparr>, 0) =
          (st\<lparr>R := r4\<rparr>, (\<Sum>i<Nl st. B st ! i * L st i))" "length r4 = length r3"
    using residual_l_fold [of "Nl st" "st\<lparr>R := r3\<rparr>" 0] by (auto simp: L_def)
  have "compute_residual st =
          (st\<lparr>R := r4\<rparr>, (\<Sum>i<Nx st. C st ! i * X st i), (\<Sum>i<Nl st. B st ! i * L st i),
           (\<Sum>i<Nx st. X st i * S st i) / real (Nx st))"
    by (simp add: compute_residual_def Let_def r1_def [symmetric] r2_def [symmetric] r3 r4)
  then show ?thesis using r4(2) r3(2) len2 by auto
qed

lemma update_residual_fold:
  assumes len: "length (R st) = 2 * Nx st + Nl st" and "k \<le> Nx st"
  shows "\<exists>rs. fold (update_residual_step \<sigma> \<mu>) [0..<k] st = st\<lparr>R := rs\<rparr> \<and>
           length rs = length (R st) \<and>
           (\<forall>i<Nx st. rs ! i = R st ! i \<and>
                      rs ! (Nx st + Nl st + i) =
                        (if i < k then R st ! (Nx st + Nl st + i) + (Mdx st i * Mds st i - \<sigma> * \<mu>)
                         else R st ! (Nx st + Nl st + i))) \<and>
           (\<forall>j<Nl st. rs ! (Nx st + j) = R st ! (Nx st + j))"
  using assms(2)
proof (induction k)
  case 0
  show ?case by (rule exI [of _ "R st"]) simp
next
  case (Suc k)
  then obtain rs where rs: "fold (update_residual_step \<sigma> \<mu>) [0..<k] st = st\<lparr>R := rs\<rparr>"
    "length rs = length (R st)"
    "\<forall>i<Nx st. rs ! i = R st ! i \<and>
                      rs ! (Nx st + Nl st + i) =
                        (if i < k then R st ! (Nx st + Nl st + i) + (Mdx st i * Mds st i - \<sigma> * \<mu>)
                         else R st ! (Nx st + Nl st + i))"
    "\<forall>j<Nl st. rs ! (Nx st + j) = R st ! (Nx st + j)"
    by auto
  let ?rs = "rs[Nx st + Nl st + k := rs ! (Nx st + Nl st + k) + (Mdx st k * Mds st k - \<sigma> * \<mu>)]"
  have len': "length rs = 2 * Nx st + Nl st" using rs(2) len by simp
  have k: "k < Nx st" using Suc.prems by simp
  have "fold (update_residual_step \<sigma> \<mu>) [0..<Suc k] st = st\<lparr>R := ?rs\<rparr>"
    by (simp add: rs(1) update_residual_step_def Rs_def Mdx_def Mds_def)
  moreover have "length ?rs = length (R st)" using rs(2) by simp
  moreover have "\<forall>i<Nx st. ?rs ! i = R st ! i \<and>
                      ?rs ! (Nx st + Nl st + i) =
                        (if i < Suc k then R st ! (Nx st + Nl st + i) + (Mdx st i * Mds st i - \<sigma> * \<mu>)
                         else R st ! (Nx st + Nl st + i))"
    using rs(3) len' k by (auto simp: nth_list_update less_Suc_eq)
  moreover have "\<forall>j<Nl st. ?rs ! (Nx st + j) = R st ! (Nx st + j)"
    using rs(4) len' k by (auto simp: nth_list_update)
  ultimately show ?case by blast
qed

lemma control_variables_eq:
  "control_variables \<mu> st =
     (((\<Sum>i<Nx st. (X st i - min 1 (fst (calc_min_ratios st)) * Mdx st i) *
                    (S st i - min 1 (snd (calc_min_ratios st)) * Mds st i)) / real (Nx st)) / \<mu>) ^ 3"
  by (simp add: control_variables_def Let_def fold_sum_upt split: prod.split)

text \<open>When a ratio qualifies for \<open>X\<close> and one for \<open>S\<close>, the centering parameter of the code is
  that of the specification.\<close>

lemma control_variables_spec:
  assumes "\<exists>i<Nx st. 0 < Mdx st i" and "\<exists>i<Nx st. 0 < Mds st i"
  shows "control_variables \<mu> st = spec_sigma \<mu> st"
  using step_length_x_spec [OF assms(1), of 1] step_length_s_spec [OF assms(2), of 1]
  by (simp add: control_variables_eq spec_sigma_def Let_def)

subsection \<open>The starting point\<close>

text \<open>The initial guess of a problem whose matrix has \<open>Nl > 0\<close> rows of \<open>Nx\<close> entries, when the
  dense solve returns \<open>d\<close> and a vector \<open>l\<close> of \<open>Nl\<close> entries: \<open>X = A\<^sup>T d\<close>, \<open>L = l\<close> and
  \<open>S = c - A\<^sup>T l\<close>.\<close>

lemma initial_guess_views:
  assumes alloc: "allocated st" and rows: "length (A st) = Nl st" "0 < Nl st"
    and cols: "\<forall>row\<in>set (A st). length row = Nx st" and c: "length (C st) = Nx st"
    and spd: "spd (SpMatMatTrMul 1 (A st)) (B st) (SpMatVecMul 1 (A st) (C st)) = (d, l)"
    and l: "length l = Nl st"
  shows "(\<forall>i<Nx st. X (initial_guess spd st) i = (\<Sum>k<Nl st. A st ! k ! i * d ! k) \<and>
                    S (initial_guess spd st) i = C st ! i - (\<Sum>k<Nl st. A st ! k ! i * l ! k)) \<and>
         (\<forall>j<Nl st. L (initial_guess spd st) j = l ! j)"
proof -
  from alloc have len: "length (Y st) = 2 * Nx st + Nl st" by (simp add: allocated_def)
  from rows cols have nc: "ncols (A st) = Nx st"
    by (cases "A st") (simp_all add: ncols_def)
  define y1 where "y1 = set_view (Nx st) l (Y st)"
  define y2 where "y2 = set_view 0 (SpMatTrVecMul 1 (A st) d) y1"
  define y3 where "y3 = set_view (Nx st + Nl st) (VecCopy 1 (C st)) y2"
  define w where "w = SpMatTrVecMul (- 1) (A st) (view (Nx st) (Nl st) y3)"
  define y4 where "y4 = add_view (Nx st + Nl st) w y3"
  have ig: "initial_guess spd st = st\<lparr>Y := y4\<rparr>"
    by (simp add: initial_guess_def spd Let_def y1_def y2_def y3_def y4_def w_def)
  have lens: "length y1 = 2 * Nx st + Nl st" "length y2 = 2 * Nx st + Nl st"
    "length y3 = 2 * Nx st + Nl st"
    by (simp_all add: y1_def y2_def y3_def length_set_view len)
  have lt: "length (SpMatTrVecMul \<alpha> (A st) u) = Nx st" for \<alpha> u
    by (simp add: SpMatTrVecMul_def nc)
  have n1: "y1 ! j = (if Nx st \<le> j \<and> j < Nx st + Nl st then l ! (j - Nx st) else Y st ! j)" for j
    unfolding y1_def using len l by (subst nth_set_view) simp_all
  have n2: "y2 ! j = (if j < Nx st then SpMatTrVecMul 1 (A st) d ! j else y1 ! j)" for j
    unfolding y2_def using lens(1) by (subst nth_set_view) (simp_all add: lt)
  have n3: "y3 ! j = (if Nx st + Nl st \<le> j \<and> j < 2 * Nx st + Nl st
                     then C st ! (j - (Nx st + Nl st)) else y2 ! j)" for j
    unfolding y3_def using lens(2) c by (subst nth_set_view) (auto simp: VecCopy_def)
  have n4: "y4 ! j = (if Nx st + Nl st \<le> j \<and> j < 2 * Nx st + Nl st
                     then y3 ! j + w ! (j - (Nx st + Nl st)) else y3 ! j)" for j
    unfolding y4_def using lens(3) by (subst nth_add_view) (auto simp: w_def lt)
  have tr: "i < Nx st \<Longrightarrow>
      SpMatTrVecMul \<alpha> (A st) u ! i = \<alpha> * (\<Sum>k<Nl st. A st ! k ! i * u ! k)" for \<alpha> u i
    by (simp add: SpMatTrVecMul_def nc rows sum_list_upt)
  have lv: "k < Nl st \<Longrightarrow> view (Nx st) (Nl st) y3 ! k = l ! k" for k
    by (simp add: view_def n3 n2 n1)
  have "X (initial_guess spd st) i = (\<Sum>k<Nl st. A st ! k ! i * d ! k)" if "i < Nx st" for i
    using that by (simp add: ig X_def n4 n3 n2 tr)
  moreover have "S (initial_guess spd st) i = C st ! i - (\<Sum>k<Nl st. A st ! k ! i * l ! k)"
    if "i < Nx st" for i
    using that by (simp add: ig S_def n4 n3 w_def tr lv)
  moreover have "L (initial_guess spd st) j = l ! j" if "j < Nl st" for j
    using that by (simp add: ig L_def n4 n3 n2 n1)
  ultimately show ?thesis by blast
qed

lemma min_XS_fold:
  "1 \<le> k \<Longrightarrow> fold (min_step st) [1..<k] (X st 0, S st 0) =
                 (Min (X st ` {..<k}), Min (S st ` {..<k}))"
proof (induction k rule: nat_induct_at_least)
  case base
  show ?case by (simp add: lessThan_Suc)
next
  case (Suc k)
  from Suc.hyps have "0 \<in> {..<k}" by simp
  then have ne: "{..<k} \<noteq> {}" by blast
  have "Min (insert (f k) (f ` {..<k})) = min (f k) (Min (f ` {..<k}))" for f :: "nat \<Rightarrow> real"
    by (rule Min_insert) (use ne in auto)
  with Suc show ?case
    by (simp add: lessThan_Suc [of k] min.commute)
qed

lemma min_XS_eq:
  "0 < Nx st \<Longrightarrow> min_XS st = (Min (X st ` {..<Nx st}), Min (S st ` {..<Nx st}))"
  using min_XS_fold [of "Nx st" st] by (simp add: min_XS_def)

lemma first_shift_fold:
  assumes len: "length (Y st) = 2 * Nx st + Nl st" and "k \<le> Nx st"
  shows "fold (first_shift_step \<delta>x \<delta>s) [0..<k] (st, a, b, c) =
           (fold (second_shift_step \<delta>x \<delta>s) [0..<k] st,
            a + (\<Sum>i<k. (X st i + \<delta>x) * (S st i + \<delta>s)),
            b + (\<Sum>i<k. X st i + \<delta>x),
            c + (\<Sum>i<k. S st i + \<delta>s))"
  using assms(2)
proof (induction k)
  case 0
  show ?case by simp
next
  case (Suc k)
  then have k: "Suc k \<le> Nx st" "k < Nx st" by simp_all
  obtain ys where ys: "fold (second_shift_step \<delta>x \<delta>s) [0..<Suc k] st = st\<lparr>Y := ys\<rparr>"
    "\<forall>i<Nx st. ys ! i = (if i < Suc k then Y st ! i + \<delta>x else Y st ! i) \<and>
                      ys ! (Nx st + Nl st + i) =
                        (if i < Suc k then Y st ! (Nx st + Nl st + i) + \<delta>s
                         else Y st ! (Nx st + Nl st + i))"
    using second_shift_fold_upto [OF len k(1)] by blast
  from ys(2) k(2) have at_k: "ys ! k = X st k + \<delta>x" "ys ! (Nx st + Nl st + k) = S st k + \<delta>s"
    by (simp_all add: X_def S_def)
  define st' where "st' = fold (second_shift_step \<delta>x \<delta>s) [0..<k] st"
  have step: "first_shift_step \<delta>x \<delta>s k (st', a', b', c') =
          (second_shift_step \<delta>x \<delta>s k st',
           a' + X (second_shift_step \<delta>x \<delta>s k st') k * S (second_shift_step \<delta>x \<delta>s k st') k,
           b' + X (second_shift_step \<delta>x \<delta>s k st') k,
           c' + S (second_shift_step \<delta>x \<delta>s k st') k)" for a' b' c'
    by (simp add: second_shift_step_def Let_def)
  have next_st: "second_shift_step \<delta>x \<delta>s k st' = st\<lparr>Y := ys\<rparr>"
    using ys(1) by (simp add: st'_def)
  have "fold (first_shift_step \<delta>x \<delta>s) [0..<Suc k] (st, a, b, c) =
        first_shift_step \<delta>x \<delta>s k (st', a + (\<Sum>i<k. (X st i + \<delta>x) * (S st i + \<delta>s)),
            b + (\<Sum>i<k. X st i + \<delta>x), c + (\<Sum>i<k. S st i + \<delta>s))"
    using Suc.IH k(2) by (simp add: st'_def)
  also have "\<dots> = (st\<lparr>Y := ys\<rparr>,
            a + (\<Sum>i<Suc k. (X st i + \<delta>x) * (S st i + \<delta>s)),
            b + (\<Sum>i<Suc k. X st i + \<delta>x),
            c + (\<Sum>i<Suc k. S st i + \<delta>s))"
    unfolding step next_st using at_k by (simp add: X_def S_def)
  finally show ?case by (simp only: ys(1))
qed

lemma first_shift_eq:
  assumes len: "length (Y st) = 2 * Nx st + Nl st" and nx: "0 < Nx st"
    and sh: "spec_first_shifts st = (\<delta>x, \<delta>s)"
  shows "\<exists>ys. first_shift st =
               (st\<lparr>Y := ys\<rparr>,
                (\<Sum>i<Nx st. (X st i + \<delta>x) * (S st i + \<delta>s)),
                (\<Sum>i<Nx st. X st i + \<delta>x),
                (\<Sum>i<Nx st. S st i + \<delta>s)) \<and>
             length ys = length (Y st) \<and>
             (\<forall>i<Nx st. ys ! i = X st i + \<delta>x \<and> ys ! (Nx st + Nl st + i) = S st i + \<delta>s) \<and>
             (\<forall>j<Nl st. ys ! (Nx st + j) = L st j)"
proof -
  obtain ys where ys: "fold (second_shift_step \<delta>x \<delta>s) [0..<Nx st] st = st\<lparr>Y := ys\<rparr>"
    "length ys = length (Y st)"
    "\<forall>i<Nx st. ys ! i = Y st ! i + \<delta>x \<and>
                      ys ! (Nx st + Nl st + i) = Y st ! (Nx st + Nl st + i) + \<delta>s"
    "\<forall>j<Nl st. ys ! (Nx st + j) = Y st ! (Nx st + j)"
    using second_shift_fold [OF len] by blast
  from sh have d: "\<delta>x = max (- 1.5 * Min (X st ` {..<Nx st})) 0"
    "\<delta>s = max (- 1.5 * Min (S st ` {..<Nx st})) 0"
    by (simp_all add: spec_first_shifts_def)
  have "first_shift st =
               (st\<lparr>Y := ys\<rparr>,
                (\<Sum>i<Nx st. (X st i + \<delta>x) * (S st i + \<delta>s)),
                (\<Sum>i<Nx st. X st i + \<delta>x),
                (\<Sum>i<Nx st. S st i + \<delta>s))"
    unfolding first_shift_def min_XS_eq [OF nx] Let_def prod.case d [symmetric]
      first_shift_fold [OF len order_refl] ys(1)
    by simp
  then show ?thesis using ys(2,3,4) by (auto simp: X_def S_def L_def)
qed

lemma second_shift_eq:
  assumes len: "length (Y st) = 2 * Nx st + Nl st"
  shows "\<exists>ys. second_shift (st, xdots, xsum, ssum) = st\<lparr>Y := ys\<rparr> \<and>
             length ys = length (Y st) \<and>
             (\<forall>i<Nx st. ys ! i = X st i + 0.5 * xdots / ssum \<and>
                        ys ! (Nx st + Nl st + i) = S st i + 0.5 * xdots / xsum) \<and>
             (\<forall>j<Nl st. ys ! (Nx st + j) = L st j)"
  using second_shift_fold [OF len, of "0.5 * xdots / ssum" "0.5 * xdots / xsum"]
  by (simp add: second_shift_def X_def S_def L_def)

lemma shifts_eq:
  assumes len: "length (Y st) = 2 * Nx st + Nl st" and nx: "0 < Nx st"
    and d1: "spec_first_shifts st = (\<delta>x1, \<delta>s1)" and d2: "spec_second_shifts st = (\<delta>x2, \<delta>s2)"
  shows "\<exists>y1 y2. first_shift st =
               (st\<lparr>Y := y1\<rparr>,
                (\<Sum>i<Nx st. (X st i + \<delta>x1) * (S st i + \<delta>s1)),
                (\<Sum>i<Nx st. X st i + \<delta>x1),
                (\<Sum>i<Nx st. S st i + \<delta>s1)) \<and>
             second_shift (first_shift st) = st\<lparr>Y := y2\<rparr> \<and>
             (\<forall>i<Nx st. y1 ! i = X st i + \<delta>x1 \<and> y1 ! (Nx st + Nl st + i) = S st i + \<delta>s1 \<and>
                        y2 ! i = X st i + \<delta>x1 + \<delta>x2 \<and>
                        y2 ! (Nx st + Nl st + i) = S st i + \<delta>s1 + \<delta>s2) \<and>
             (\<forall>j<Nl st. y1 ! (Nx st + j) = L st j \<and> y2 ! (Nx st + j) = L st j)"
proof -
  let ?xdots = "\<Sum>i<Nx st. (X st i + \<delta>x1) * (S st i + \<delta>s1)"
  let ?xsum = "\<Sum>i<Nx st. X st i + \<delta>x1"
  let ?ssum = "\<Sum>i<Nx st. S st i + \<delta>s1"
  from first_shift_eq [OF len nx d1] obtain y1 where y1:
    "first_shift st = (st\<lparr>Y := y1\<rparr>, ?xdots, ?xsum, ?ssum)"
    "length y1 = length (Y st)"
    "\<forall>i<Nx st. y1 ! i = X st i + \<delta>x1 \<and> y1 ! (Nx st + Nl st + i) = S st i + \<delta>s1"
    "\<forall>j<Nl st. y1 ! (Nx st + j) = L st j"
    by blast
  have len1: "length (Y (st\<lparr>Y := y1\<rparr>)) = 2 * Nx (st\<lparr>Y := y1\<rparr>) + Nl (st\<lparr>Y := y1\<rparr>)"
    using y1(2) len by simp
  from second_shift_eq [OF len1, of ?xdots ?xsum ?ssum] obtain y2 where y2:
    "second_shift (st\<lparr>Y := y1\<rparr>, ?xdots, ?xsum, ?ssum) = st\<lparr>Y := y2\<rparr>"
    "\<forall>i<Nx st. y2 ! i = X (st\<lparr>Y := y1\<rparr>) i + 0.5 * ?xdots / ?ssum \<and>
               y2 ! (Nx st + Nl st + i) = S (st\<lparr>Y := y1\<rparr>) i + 0.5 * ?xdots / ?xsum"
    "\<forall>j<Nl st. y2 ! (Nx st + j) = L (st\<lparr>Y := y1\<rparr>) j"
    by auto
  from d1 d2 have d2': "\<delta>x2 = 0.5 * ?xdots / ?ssum" "\<delta>s2 = 0.5 * ?xdots / ?xsum"
    by (simp_all add: spec_second_shifts_def Let_def)
  have "\<forall>i<Nx st. y2 ! i = X st i + \<delta>x1 + \<delta>x2 \<and> y2 ! (Nx st + Nl st + i) = S st i + \<delta>s1 + \<delta>s2"
    using y2(2) y1(3) unfolding d2' by (simp add: X_def S_def)
  moreover have "\<forall>j<Nl st. y2 ! (Nx st + j) = L st j"
    using y2(3) y1(4) by (simp add: L_def)
  ultimately show ?thesis
    using y1(1,3,4) y2(1) by (intro exI [of _ y1] exI [of _ y2]) simp
qed

lemma starting_point_positive:
  assumes len: "length (Y st) = 2 * Nx st + Nl st" and nx: "0 < Nx st"
    and fs: "first_shift st = (st1, xdots, xsum, ssum)" and pos: "0 < xdots"
  shows "\<forall>i<Nx st. 0 < X (second_shift (first_shift st)) i \<and>
                   0 < S (second_shift (first_shift st)) i"
proof -
  obtain \<delta>x1 \<delta>s1 where d1: "spec_first_shifts st = (\<delta>x1, \<delta>s1)"
    by (cases "spec_first_shifts st")
  obtain \<delta>x2 \<delta>s2 where d2: "spec_second_shifts st = (\<delta>x2, \<delta>s2)"
    by (cases "spec_second_shifts st")
  let ?xdots = "\<Sum>i<Nx st. (X st i + \<delta>x1) * (S st i + \<delta>s1)"
  let ?xsum = "\<Sum>i<Nx st. X st i + \<delta>x1"
  let ?ssum = "\<Sum>i<Nx st. S st i + \<delta>s1"
  from shifts_eq [OF len nx d1 d2] obtain y1 y2 where
    fs': "first_shift st = (st\<lparr>Y := y1\<rparr>, ?xdots, ?xsum, ?ssum)"
    and ss: "second_shift (first_shift st) = st\<lparr>Y := y2\<rparr>"
    and xs: "\<forall>i<Nx st. y2 ! i = X st i + \<delta>x1 + \<delta>x2 \<and>
                        y2 ! (Nx st + Nl st + i) = S st i + \<delta>s1 + \<delta>s2"
    by auto
  from fs fs' pos have dot: "0 < ?xdots" by simp
  from d1 have d1': "\<delta>x1 = max (- 1.5 * Min (X st ` {..<Nx st})) 0"
    "\<delta>s1 = max (- 1.5 * Min (S st ` {..<Nx st})) 0"
    by (simp_all add: spec_first_shifts_def)
  have nonneg: "\<forall>i<Nx st. 0 \<le> X st i + \<delta>x1 \<and> 0 \<le> S st i + \<delta>s1"
    unfolding d1' using first_shift_nonneg by blast
  from dot_positive_sums_positive [OF nonneg dot] have sums: "0 < ?xsum" "0 < ?ssum"
    by simp_all
  from d1 d2 have d2': "\<delta>x2 = 0.5 * ?xdots / ?ssum" "\<delta>s2 = 0.5 * ?xdots / ?xsum"
    by (simp_all add: spec_second_shifts_def Let_def)
  have "0 < \<delta>x2" "0 < \<delta>s2"
    unfolding d2' using dot sums by simp_all
  with nonneg xs show ?thesis
    by (auto simp: ss X_def S_def intro: add_nonneg_pos)
qed

subsection \<open>The body of the loop and the loop\<close>



lemma newton_step_Next:
  assumes "newton_step lis it \<mu> st = Next st'"
  shows "\<exists>h m1 h1 m2 h2 stp stc.
           stp = (assemble_Jacobian st)\<lparr>Mdy := m1, Lis := h1\<rparr> \<and>
           stc = update_residual (control_variables \<mu> stp) \<mu> stp \<and>
           SolveR lis h (R st) False = Inr (m1, h1) \<and>
           SolveR lis h1 (R stc) False = Inr (m2, h2) \<and>
           st' = update (stc\<lparr>Mdy := m2, Lis := h2\<rparr>)"
proof -
  define st2 where "st2 = assemble_Jacobian st"
  have R2: "R st2 = R st" by (simp add: st2_def assemble_Jacobian_def Let_def)
  from assms obtain h m1 h1 where
    solve1: "SolveR lis h (R st2) False = Inr (m1, h1)"
    and rest: "(let st = st2\<lparr>Mdy := m1, Lis := h1\<rparr>;
                   \<sigma> = control_variables \<mu> st;
                   st = update_residual \<sigma> \<mu> st
               in (case SolveR lis (Lis st) (R st) False of
                     Inl err \<Rightarrow> Return err st
                   | Inr (mdy, h) \<Rightarrow> Next (update (st\<lparr>Mdy := mdy, Lis := h\<rparr>)))) = Next st'"
    unfolding newton_step_def st2_def [symmetric]
    by (auto simp: split: if_splits sum.splits prod.splits)
  define stp where "stp = st2\<lparr>Mdy := m1, Lis := h1\<rparr>"
  define stc where "stc = update_residual (control_variables \<mu> stp) \<mu> stp"
  obtain rc where rc: "stc = stp\<lparr>R := rc\<rparr>"
    using update_residual_frame [of "control_variables \<mu> stp" \<mu> "[0..<Nx stp]" stp]
    by (auto simp: stc_def update_residual_def)
  have lis: "Lis stc = h1" by (simp add: rc stp_def)
  from rest obtain m2 h2 where
    "SolveR lis (Lis stc) (R stc) False = Inr (m2, h2)" "st' = update (stc\<lparr>Mdy := m2, Lis := h2\<rparr>)"
    by (auto simp: Let_def stp_def [symmetric] stc_def [symmetric] split: sum.splits prod.splits)
  with solve1 R2 lis show ?thesis
    unfolding stp_def stc_def st2_def by (metis (no_types))
qed

text \<open>Between its two solves a Newton step changes \<open>R\<close> on \<open>Rs\<close> only: the residual given to the
  second solve, which is the \<open>R\<close> of the state the step leaves, is the one given to the first solve
  with \<open>Mdx[i] Mds[i] - \<sigma> \<mu>\<close> added to every \<open>Rs[i]\<close>, for the predictor direction and the \<open>\<sigma>\<close> the
  code computes from it.\<close>

lemma newton_step_corrector_residual:
  assumes len: "length (R st) = 2 * Nx st + Nl st" and step: "newton_step lis it \<mu> st = Next st'"
  shows "\<exists>h m1 h1 m2 h2 stp \<sigma>.
           SolveR lis h (R st) False = Inr (m1, h1) \<and>
           stp = (assemble_Jacobian st)\<lparr>Mdy := m1, Lis := h1\<rparr> \<and>
           \<sigma> = control_variables \<mu> stp \<and>
           SolveR lis h1 (R st') False = Inr (m2, h2) \<and>
           (\<forall>i<Nx st. Rs st' i = Rs st i + (Mdx stp i * Mds stp i - \<sigma> * \<mu>) \<and>
                      Rx st' i = Rx st i) \<and>
           (\<forall>j<Nl st. Rl st' j = Rl st j)"
proof -
  from newton_step_Next [OF step] obtain h m1 h1 m2 h2 stp stc where
    stp: "stp = (assemble_Jacobian st)\<lparr>Mdy := m1, Lis := h1\<rparr>"
    and stc: "stc = update_residual (control_variables \<mu> stp) \<mu> stp"
    and solve1: "SolveR lis h (R st) False = Inr (m1, h1)"
    and solve2: "SolveR lis h1 (R stc) False = Inr (m2, h2)"
    and st': "st' = update (stc\<lparr>Mdy := m2, Lis := h2\<rparr>)"
    by blast
  define \<sigma> where "\<sigma> = control_variables \<mu> stp"
  have frame: "Nx stp = Nx st" "Nl stp = Nl st" "R stp = R st"
    by (simp_all add: stp assemble_Jacobian_def Let_def)
  have lenp: "length (R stp) = 2 * Nx stp + Nl stp"
    using len frame by simp
  from update_residual_fold [OF lenp order_refl, of \<sigma> \<mu>] obtain rs where
    rs: "stc = stp\<lparr>R := rs\<rparr>"
    "\<forall>i<Nx stp. rs ! i = R stp ! i \<and>
        rs ! (Nx stp + Nl stp + i) = R stp ! (Nx stp + Nl stp + i) + (Mdx stp i * Mds stp i - \<sigma> * \<mu>)"
    "\<forall>j<Nl stp. rs ! (Nx stp + j) = R stp ! (Nx stp + j)"
    by (auto simp: stc \<sigma>_def update_residual_def)
  obtain ys where ys: "st' = (stc\<lparr>Mdy := m2, Lis := h2\<rparr>)\<lparr>Y := ys\<rparr>"
    using update_frame [of "stc\<lparr>Mdy := m2, Lis := h2\<rparr>"] st' by auto
  have R': "R st' = rs" "Nx st' = Nx st" "Nl st' = Nl st"
    by (simp_all add: ys rs(1) frame)
  have "\<forall>i<Nx st. Rs st' i = Rs st i + (Mdx stp i * Mds stp i - \<sigma> * \<mu>) \<and> Rx st' i = Rx st i"
    using rs(2) by (simp add: Rs_def Rx_def R' frame)
  moreover have "\<forall>j<Nl st. Rl st' j = Rl st j"
    using rs(3) by (simp add: Rl_def R' frame)
  moreover have "SolveR lis h1 (R st') False = Inr (m2, h2)"
    using solve2 by (simp add: R' rs(1))
  ultimately show ?thesis
    using solve1 stp \<sigma>_def by blast
qed

text \<open>The update of a Newton step: the direction is the answer of the second solve, the step
  lengths are \<open>min(1, 0.99 xrmin)\<close> and \<open>min(1, 0.99 srmin)\<close> for the result of \<open>calc_min_ratios\<close> on
  the iterate before the update with that direction, \<open>X\<close> moves with the first, and \<open>S\<close> and \<open>L\<close>
  move with the second.\<close>

lemma newton_step_final_update:
  assumes len: "length (Y st) = 2 * Nx st + Nl st" and step: "newton_step lis it \<mu> st = Next st'"
  shows "\<exists>h1 m2 h2 xrmin srmin.
           SolveR lis h1 (R st') False = Inr (m2, h2) \<and> Mdy st' = m2 \<and>
           calc_min_ratios (st'\<lparr>Y := Y st\<rparr>) = (xrmin, srmin) \<and>
           (\<forall>i<Nx st. X st' i = X st i - min 1 (0.99 * xrmin) * Mdx st' i \<and>
                      S st' i = S st i - min 1 (0.99 * srmin) * Mds st' i) \<and>
           (\<forall>j<Nl st. L st' j = L st j - min 1 (0.99 * srmin) * Mdl st' j)"
proof -
  from newton_step_Next [OF step] obtain h m1 h1 m2 h2 stp stc where
    stp: "stp = (assemble_Jacobian st)\<lparr>Mdy := m1, Lis := h1\<rparr>"
    and stc: "stc = update_residual (control_variables \<mu> stp) \<mu> stp"
    and solve2: "SolveR lis h1 (R stc) False = Inr (m2, h2)"
    and st': "st' = update (stc\<lparr>Mdy := m2, Lis := h2\<rparr>)"
    by blast
  obtain rs where rs: "stc = stp\<lparr>R := rs\<rparr>"
    using update_residual_frame [of "control_variables \<mu> stp" \<mu> "[0..<Nx stp]" stp]
    by (auto simp: stc update_residual_def)
  define sc where "sc = stc\<lparr>Mdy := m2, Lis := h2\<rparr>"
  have frame: "Nx sc = Nx st" "Nl sc = Nl st" "Y sc = Y st" "Mdy sc = m2" "R sc = R stc"
    by (simp_all add: sc_def rs stp assemble_Jacobian_def Let_def)
  have lenc: "length (Y sc) = 2 * Nx sc + Nl sc"
    using len frame by simp
  from update_eq [OF lenc] obtain ys where ys: "update sc = sc\<lparr>Y := ys\<rparr>"
    "\<forall>i<Nx sc. ys ! i = X sc i - min 1 (0.99 * fst (calc_min_ratios sc)) * Mdx sc i \<and>
                 ys ! (Nx sc + Nl sc + i) = S sc i - min 1 (0.99 * snd (calc_min_ratios sc)) * Mds sc i"
    "\<forall>j<Nl sc. ys ! (Nx sc + j) = L sc j - min 1 (0.99 * snd (calc_min_ratios sc)) * Mdl sc j"
    by blast
  have st'_eq: "st' = sc\<lparr>Y := ys\<rparr>"
    using st' ys(1) by (simp add: sc_def)
  have restored: "st'\<lparr>Y := Y st\<rparr> = sc"
    using frame(3) by (simp add: st'_eq)
  obtain xrmin srmin where cmr: "calc_min_ratios sc = (xrmin, srmin)"
    by (cases "calc_min_ratios sc")
  have "\<forall>i<Nx st. X st' i = X st i - min 1 (0.99 * xrmin) * Mdx st' i \<and>
                   S st' i = S st i - min 1 (0.99 * srmin) * Mds st' i"
    using ys(2) frame by (simp add: st'_eq cmr X_def S_def Mdx_def Mds_def)
  moreover have "\<forall>j<Nl st. L st' j = L st j - min 1 (0.99 * srmin) * Mdl st' j"
    using ys(3) frame by (simp add: st'_eq cmr L_def Mdl_def)
  moreover have "SolveR lis h1 (R st') False = Inr (m2, h2)" "Mdy st' = m2"
    using solve2 frame by (simp_all add: st'_eq)
  ultimately show ?thesis
    using cmr restored by metis
qed

lemma iteration_Next:
  assumes "iteration lis it st = Next st'"
  shows "\<exists>stp mdy h rs j m l.
           SolveR lis (Lis stp) (R stp) False = Inr (mdy, h) \<and>
           st' = update (stp\<lparr>Mdy := mdy, Lis := h\<rparr>) \<and>
           stp = st\<lparr>R := rs, J := j, Mdy := m, Lis := l\<rparr> \<and> length rs = length (R st)"
proof -
  obtain r1 where r1: "compute_residual st =
          (st\<lparr>R := r1\<rparr>, (\<Sum>i<Nx st. C st ! i * X st i), (\<Sum>i<Nl st. B st ! i * L st i),
           (\<Sum>i<Nx st. X st i * S st i) / real (Nx st))" "length r1 = length (R st)"
    using compute_residual_eq by blast
  define \<mu> where "\<mu> = (\<Sum>i<Nx st. X st i * S st i) / real (Nx st)"
  define st2 where "st2 = assemble_Jacobian (st\<lparr>R := r1\<rparr>)"
  have st2: "st2 = st\<lparr>R := r1, J := J st2\<rparr>"
    by (simp add: st2_def assemble_Jacobian_def Let_def)
  from assms r1(1) have "newton_step lis it \<mu> (st\<lparr>R := r1\<rparr>) = Next st'"
    by (simp add: iteration_def \<mu>_def split: if_splits)
  then obtain h2 m1 h3 where
    solve1: "SolveR lis h2 (R st2) False = Inr (m1, h3)"
    and rest: "(let st = st2\<lparr>Mdy := m1, Lis := h3\<rparr>;
                   \<sigma> = control_variables \<mu> st;
                   st = update_residual \<sigma> \<mu> st
               in (case SolveR lis (Lis st) (R st) False of
                     Inl err \<Rightarrow> Return err st
                   | Inr (mdy, h) \<Rightarrow> Next (update (st\<lparr>Mdy := mdy, Lis := h\<rparr>)))) = Next st'"
    unfolding newton_step_def st2_def [symmetric]
    by (auto simp: split: if_splits sum.splits prod.splits)
  define st3 where "st3 = st2\<lparr>Mdy := m1, Lis := h3\<rparr>"
  define \<sigma> where "\<sigma> = control_variables \<mu> st3"
  obtain r2 where r2: "update_residual \<sigma> \<mu> st3 = st3\<lparr>R := r2\<rparr>" "length r2 = length (R st3)"
    using update_residual_frame [of \<sigma> \<mu> "[0..<Nx st3]" st3] by (auto simp: update_residual_def)
  from rest obtain mdy h where
    solve2: "SolveR lis (Lis (st3\<lparr>R := r2\<rparr>)) (R (st3\<lparr>R := r2\<rparr>)) False = Inr (mdy, h)"
    and st': "st' = update (st3\<lparr>R := r2, Mdy := mdy, Lis := h\<rparr>)"
    by (auto simp: Let_def st3_def [symmetric] \<sigma>_def [symmetric] r2(1)
             split: sum.splits prod.splits)
  have eq: "st3\<lparr>R := r2\<rparr> = st\<lparr>R := r2, J := J st2, Mdy := m1, Lis := h3\<rparr>"
    unfolding st3_def by (subst st2) simp
  have "R st3 = r1"
    unfolding st3_def by (subst st2) simp
  then have "length r2 = length (R st)"
    using r2(2) r1(2) by simp
  with solve2 st' eq show ?thesis
    by (intro exI [of _ "st3\<lparr>R := r2\<rparr>"] exI [of _ mdy] exI [of _ h] exI [of _ r2]
        exI [of _ "J st2"] exI [of _ m1] exI [of _ h3]) simp
qed

lemma iteration_Next_frame:
  assumes "iteration lis it st = Next st'"
  shows "\<exists>ys rs j m l. st' = st\<lparr>Y := ys, R := rs, J := j, Mdy := m, Lis := l\<rparr> \<and>
           length ys = length (Y st) \<and> length rs = length (R st)"
proof -
  from iteration_Next [OF assms] obtain stp mdy h rs j m l where
    st': "st' = update (stp\<lparr>Mdy := mdy, Lis := h\<rparr>)"
    and stp: "stp = st\<lparr>R := rs, J := j, Mdy := m, Lis := l\<rparr>" "length rs = length (R st)"
    by blast
  obtain ys where ys: "update (stp\<lparr>Mdy := mdy, Lis := h\<rparr>) = stp\<lparr>Mdy := mdy, Lis := h\<rparr>\<lparr>Y := ys\<rparr>"
    "length ys = length (Y (stp\<lparr>Mdy := mdy, Lis := h\<rparr>))"
    using update_frame by blast
  show ?thesis
    by (intro exI [of _ ys] exI [of _ rs] exI [of _ j] exI [of _ mdy] exI [of _ h])
       (use st' stp ys in simp)
qed

lemma iterate_loop:
  assumes "iterate spd lis st0 it st"
  shows "\<exists>st1. starting_point spd st0 = Some st1 \<and> NmaxIt st = NmaxIt st1 \<and> 0 \<le> it \<and>
           iterations lis (NmaxIt st1) 0 st1 = iterations lis (NmaxIt st1) it st"
  using assms
proof (induction rule: iterate.induct)
  case (first st)
  then show ?case by simp
next
  case (later it st st')
  then obtain st1 where st1: "starting_point spd st0 = Some st1" "NmaxIt st = NmaxIt st1" "0 \<le> it"
    "iterations lis (NmaxIt st1) 0 st1 = iterations lis (NmaxIt st1) it st"
    by blast
  have n: "NmaxIt st' = NmaxIt st"
    using iteration_Next_frame [OF later.hyps(3)] by auto
  have "iterations lis (NmaxIt st1) it st = iterations lis (NmaxIt st1) (it + 1) st'"
    using later.hyps(2,3) st1(2) by (subst iterations.simps) simp
  with st1 n show ?case by simp
qed

text \<open>Without a variable the read of \<^verbatim>\<open>o.X[0]\<close> is out of range: \<open>Solve\<close> panics.\<close>

lemma Solve_without_variables: "Nx st = 0 \<Longrightarrow> Solve spd lis verbose st = Panic"
  by (simp add: Solve_def starting_point_eq)

lemma Solve_negative_NmaxIt:
  assumes "NmaxIt st < 0" and "0 < Nx st"
  shows "\<exists>ys. starting_point spd st = Some (st\<lparr>Y := ys\<rparr>) \<and>
              Solve spd lis verbose st = Returned None (st\<lparr>Y := ys\<rparr>)"
proof -
  from assms(2) obtain st1 where sp: "starting_point spd st = Some st1"
    by (simp add: starting_point_eq)
  from starting_point_frame [OF sp] obtain ys where ys: "st1 = st\<lparr>Y := ys\<rparr>" by blast
  have "iterations lis (NmaxIt st1) 0 st1 = AfterLoop 0 st1"
    using assms(1) ys by (subst iterations.simps) simp
  then have "Solve spd lis verbose st = Returned None st1"
    using sp assms(1) ys by (simp add: Solve_def check_convergence_def)
  with sp ys show ?thesis by blast
qed

subsection \<open>The concrete runs\<close>

lemma lp1_run_start: "starting_point SPDsolve2_1 lp1_run = Some lp1_start"
  by code_simp

lemma lp1_run_iteration: "iteration scripted 0 lp1_start = Next lp1_after"
  by code_simp

lemma lp1_run_iterate: "iterate SPDsolve2_1 scripted lp1_run 1 lp1_after"
proof -
  have "iterate SPDsolve2_1 scripted lp1_run 0 lp1_start"
    using lp1_run_start by (rule iterate.first)
  moreover have "0 < NmaxIt lp1_start" by code_simp
  ultimately have "iterate SPDsolve2_1 scripted lp1_run (0 + 1) lp1_after"
    using lp1_run_iteration by (rule iterate.later)
  then show ?thesis by simp
qed

lemma lp2_start:
  "starting_point SPDsolve2_1 lp2 = Some (lp2\<lparr>Y := [5 / 8, 13 / 8, 0, 3 / 4, 3 / 4]\<rparr>)"
  by code_simp

lemma lp2_residual_Jacobian:
  "assemble_Jacobian (fst (compute_residual (lp2\<lparr>Y := [5 / 8, 13 / 8, 0, 3 / 4, 3 / 4]\<rparr>))) =
     lp2_predicted\<lparr>Mdy := Mdy lp2\<rparr>"
  by code_simp

lemma lp2_Newton_system: "Triplet_times (J lp2_predicted) (Mdy lp2_predicted) = R lp2_predicted"
  by code_simp

text \<open>The run of \<open>lp2_run\<close>: its starting point, the residual and \<open>\<mu>\<close> of the first iteration, the
  states after the predictor solve, after the corrector solve and after the update, the Newton
  step, the iteration and \<open>Solve\<close> as a whole; the two scripted answers solve the Newton systems
  they are the answers to.\<close>

lemma lp2_run_starting_point: "starting_point SPDsolve2_1 lp2_run = Some lp2_run_start"
  by code_simp

lemma lp2_run_residual:
  "compute_residual lp2_run_start =
     (lp2_run_start\<lparr>R := [7 / 4, 7 / 4, 0, 15 / 32, 39 / 32]\<rparr>, - 9 / 4, 0, 27 / 32)"
  by code_simp

lemma lp2_run_predictor:
  "(assemble_Jacobian (lp2_run_start\<lparr>R := [7 / 4, 7 / 4, 0, 15 / 32, 39 / 32]\<rparr>))
     \<lparr>Mdy := hd (Lis lp2_run_start), Lis := tl (Lis lp2_run_start)\<rparr> = lp2_run_predicted"
  by code_simp

lemma lp2_run_corrector:
  "(update_residual (control_variables (27 / 32) lp2_run_predicted) (27 / 32) lp2_run_predicted)
     \<lparr>Mdy := hd (Lis lp2_run_predicted), Lis := tl (Lis lp2_run_predicted)\<rparr> = lp2_run_corrected"
  by code_simp

lemma lp2_run_update: "update lp2_run_corrected = lp2_run_after"
  by code_simp

lemma lp2_run_newton_step:
  "newton_step scripted 0 (27 / 32) (lp2_run_start\<lparr>R := [7 / 4, 7 / 4, 0, 15 / 32, 39 / 32]\<rparr>) =
     Next lp2_run_after"
  by code_simp

lemma lp2_run_iteration: "iteration scripted 0 lp2_run_start = Next lp2_run_after"
  by code_simp

lemma lp2_run_Solve:
  "Solve SPDsolve2_1 scripted False lp2_run =
     Returned (Some (Err ''iterations did not converge'')) lp2_run_after"
  by code_simp

lemma lp2_run_Newton_systems:
  "Triplet_times (J lp2_run_predicted) (Mdy lp2_run_predicted) = R lp2_run_predicted \<and>
   Triplet_times (J lp2_run_corrected) (Mdy lp2_run_corrected) = R lp2_run_corrected"
  by code_simp

subsection \<open>C1: the ratio test when no ratio qualifies\<close>

text \<open>C1 does not hold for the code. At the starting point of \<open>lp2\<close> the predictor direction has
  no entry \<open>Mdx[i] > 0\<close>; \<open>calc_min_ratios\<close> then returns the zero value its result \<^verbatim>\<open>xrmin\<close> was
  declared with, and both step lengths computed from it, \<open>min(1, xrmin)\<close> of the affine test and
  \<open>min(1, 0.99 xrmin)\<close> of the final test, are \<open>0\<close> and not \<open>1\<close>. The facts before the theorem check that
  \<open>lp2_predicted\<close> is the state \<open>Solve\<close> is in: its \<open>Y\<close> is the starting point, its \<open>R\<close> and \<open>J\<close> are the
  residual and the Jacobian there, and its \<open>Mdy\<close> solves the Newton system.\<close>

theorem ratio_test_without_candidate:
  "\<not> 0 < Mdx lp2_predicted 0 \<and> \<not> 0 < Mdx lp2_predicted 1 \<and>
   calc_min_ratios lp2_predicted = (0, 27 / 79) \<and>
   min 1 (fst (calc_min_ratios lp2_predicted)) = 0 \<and>
   min 1 (0.99 * fst (calc_min_ratios lp2_predicted)) = 0"
  by code_simp

subsection \<open>C2: strict positivity\<close>

text \<open>C2, as amended. If the dot product \<open>x\<^sup>T s\<close> that the starting-point heuristic computes after
  its first shift is positive, then at every iterate of \<open>Solve\<close>, the starting point and the state
  after every update, \<open>X[i] > 0\<close> and \<open>S[i] > 0\<close> hold for every \<open>i\<close> (in exact arithmetic, on buffers
  allocated as \<open>Init\<close> does, and whatever the linear solver answers).\<close>

theorem strict_positivity:
  assumes "allocated st0"
    and "first_shift (initial_guess spd st0) = (st1, xdots, xsum, ssum)" and "0 < xdots"
    and "iterate spd lis st0 it st"
  shows "\<forall>i<Nx st. 0 < X st i \<and> 0 < S st i"
proof -
  have "allocated st \<and> (\<forall>i<Nx st. 0 < X st i \<and> 0 < S st i)"
    using assms(4)
  proof (induction rule: iterate.induct)
    case (first st)
    obtain y0 where y0: "initial_guess spd st0 = st0\<lparr>Y := y0\<rparr>" "length y0 = length (Y st0)"
      using initial_guess_frame by blast
    from first have nx: "0 < Nx st0"
      and st: "st = second_shift (first_shift (initial_guess spd st0))"
      by (simp_all add: starting_point_eq split: if_splits)
    have len: "length (Y (initial_guess spd st0)) =
        2 * Nx (initial_guess spd st0) + Nl (initial_guess spd st0)"
      using assms(1) y0 by (simp add: allocated_def)
    have nx': "0 < Nx (initial_guess spd st0)" using nx y0 by simp
    from starting_point_positive [OF len nx' assms(2,3)]
    have pos: "\<forall>i<Nx st0. 0 < X st i \<and> 0 < S st i"
      using st y0 by simp
    obtain ys where "st = st0\<lparr>Y := ys\<rparr>" "length ys = length (Y st0)"
      using starting_point_frame [OF first] by blast
    with assms(1) pos show ?case by (simp add: allocated_def)
  next
    case (later it st st')
    then have alloc: "allocated st" and pos: "\<forall>i<Nx st. 0 < X st i \<and> 0 < S st i"
      by simp_all
    from iteration_Next [OF later.hyps(3)] obtain stp mdy h rs j m l where
      st': "st' = update (stp\<lparr>Mdy := mdy, Lis := h\<rparr>)"
      and stp: "stp = st\<lparr>R := rs, J := j, Mdy := m, Lis := l\<rparr>"
      by blast
    let ?stc = "stp\<lparr>Mdy := mdy, Lis := h\<rparr>"
    have len: "length (Y ?stc) = 2 * Nx ?stc + Nl ?stc"
      using alloc stp by (simp add: allocated_def)
    have pos': "\<forall>i<Nx ?stc. 0 < X ?stc i \<and> 0 < S ?stc i"
      using pos stp by (simp add: X_def S_def)
    from update_positive [OF len pos'] have "\<forall>i<Nx st. 0 < X st' i \<and> 0 < S st' i"
      using st' stp by simp
    moreover obtain ys rs' j' m' l' where
      "st' = st\<lparr>Y := ys, R := rs', J := j', Mdy := m', Lis := l'\<rparr>"
      "length ys = length (Y st)" "length rs' = length (R st)"
      using iteration_Next_frame [OF later.hyps(3)] by blast
    ultimately show ?case using alloc by (simp add: allocated_def)
  qed
  then show ?thesis by simp
qed

text \<open>Witness for C2: \<open>lp1_run\<close>, with \<open>x\<^sup>T s = 3\<close> after the first shift, at its iterate after one
  update.\<close>

theorem strict_positivity_witness:
  "allocated lp1_run \<and>
   first_shift (initial_guess SPDsolve2_1 lp1_run) =
     (lp1_run\<lparr>Y := [2, 2, - 3 / 2, 5 / 4, 1 / 4]\<rparr>, 3, 4, 3 / 2) \<and>
   iterate SPDsolve2_1 scripted lp1_run 1 lp1_after \<and>
   0 < X lp1_after 0 \<and> 0 < S lp1_after 0 \<and> 0 < X lp1_after 1 \<and> 0 < S lp1_after 1"
proof -
  have a: "allocated lp1_run" by code_simp
  have f: "first_shift (initial_guess SPDsolve2_1 lp1_run) =
     (lp1_run\<lparr>Y := [2, 2, - 3 / 2, 5 / 4, 1 / 4]\<rparr>, 3, 4, 3 / 2)"
    by code_simp
  have n: "Nx lp1_after = 2" by code_simp
  have "\<forall>i<Nx lp1_after. 0 < X lp1_after i \<and> 0 < S lp1_after i"
    by (rule strict_positivity [OF a f _ lp1_run_iterate]) simp
  then have "0 < X lp1_after 0 \<and> 0 < S lp1_after 0" "0 < X lp1_after 1 \<and> 0 < S lp1_after 1"
    unfolding n by simp_all
  with a f lp1_run_iterate show ?thesis by blast
qed

text \<open>Counterexample to C2 as stated: for \<open>lp3\<close> the initial guess is \<open>X = (0, 1)\<close>, \<open>S = (1, 0)\<close>;
  both first shifts and the dot product are \<open>0\<close>, the sums are \<open>1\<close>, so both second shifts are \<open>0\<close>
  and the starting point has \<open>X[0] = 0\<close> and \<open>S[1] = 0\<close>. No operation on the way divides by zero or
  rounds.\<close>

theorem starting_point_on_boundary:
  "first_shift (initial_guess SPDsolve2_1 lp3) = (lp3\<lparr>Y := [0, 1, 0, 1, 0]\<rparr>, 0, 1, 1) \<and>
   starting_point SPDsolve2_1 lp3 = Some (lp3\<lparr>Y := [0, 1, 0, 1, 0]\<rparr>) \<and>
   X (lp3\<lparr>Y := [0, 1, 0, 1, 0]\<rparr>) 0 = 0 \<and> S (lp3\<lparr>Y := [0, 1, 0, 1, 0]\<rparr>) 1 = 0"
  by code_simp

subsection \<open>C3: the convergence test\<close>



subsection \<open>C4: the iteration limit\<close>

text \<open>C4. When \<open>Solve\<close> arrives at the test of the loop with the counter equal to \<open>NmaxIt\<close>, every
  iteration before having run to its update without a break, it returns the error
  "iterations did not converge". In particular, with \<open>NmaxIt = 0\<close> (and a problem with at least one
  variable, so that the starting point can be computed) it returns this error with the starting
  point as its state: no iteration has run.\<close>

theorem iterations_did_not_converge:
  "(iterate spd lis st it st' \<and> it = NmaxIt st' \<longrightarrow>
      Solve spd lis verbose st = Returned (Some (Err ''iterations did not converge'')) st') \<and>
   (0 < Nx st \<and> NmaxIt st = 0 \<longrightarrow>
      starting_point spd st = Some (second_shift (first_shift (initial_guess spd st))) \<and>
      Solve spd lis verbose st =
        Returned (Some (Err ''iterations did not converge''))
          (second_shift (first_shift (initial_guess spd st))))"
proof -
  have exhausted: "Solve spd lis verbose st = Returned (Some (Err ''iterations did not converge'')) st'"
    if "iterate spd lis st it st'" "it = NmaxIt st'" for it st'
  proof -
    from iterate_loop [OF that(1)] obtain st1 where st1: "starting_point spd st = Some st1"
      "NmaxIt st' = NmaxIt st1"
      "iterations lis (NmaxIt st1) 0 st1 = iterations lis (NmaxIt st1) it st'"
      by blast
    have "iterations lis (NmaxIt st1) it st' = AfterLoop it st'"
      using that(2) st1(2) by (subst iterations.simps) simp
    then show ?thesis
      using st1 that(2) by (simp add: Solve_def check_convergence_def)
  qed
  have "starting_point spd st = Some (second_shift (first_shift (initial_guess spd st))) \<and>
      Solve spd lis verbose st =
        Returned (Some (Err ''iterations did not converge''))
          (second_shift (first_shift (initial_guess spd st)))"
    if "0 < Nx st" "NmaxIt st = 0"
  proof -
    let ?st1 = "second_shift (first_shift (initial_guess spd st))"
    have sp: "starting_point spd st = Some ?st1"
      using that(1) by (simp add: starting_point_eq)
    then have "iterate spd lis st 0 ?st1" by (rule iterate.first)
    moreover have "NmaxIt ?st1 = 0"
      using starting_point_frame [OF sp] that(2) by auto
    ultimately show ?thesis using exhausted [of 0 ?st1] sp by simp
  qed
  with exhausted show ?thesis by blast
qed

text \<open>Witness for C4: \<open>lp1_run\<close> has \<open>NmaxIt = 1\<close> and runs one full iteration; \<open>lp1\<close> with
  \<^verbatim>\<open>nmaxit = 0\<close> fails at once, its state being the starting point.\<close>

theorem iterations_did_not_converge_witness:
  "iterate SPDsolve2_1 scripted lp1_run 1 lp1_after \<and> 1 = NmaxIt lp1_after \<and>
   Solve SPDsolve2_1 scripted False lp1_run =
     Returned (Some (Err ''iterations did not converge'')) lp1_after \<and>
   0 < Nx (lp1 [] [\<lparr>N = ''nmaxit'', V = 0\<rparr>]) \<and> NmaxIt (lp1 [] [\<lparr>N = ''nmaxit'', V = 0\<rparr>]) = 0 \<and>
   Solve SPDsolve2_1 scripted False (lp1 [] [\<lparr>N = ''nmaxit'', V = 0\<rparr>]) =
     Returned (Some (Err ''iterations did not converge''))
       ((lp1 [] [\<lparr>N = ''nmaxit'', V = 0\<rparr>])\<lparr>Y := [3, 3, - 3 / 2, 13 / 8, 5 / 8]\<rparr>)"
proof -
  let ?st0 = "lp1 [] [\<lparr>N = ''nmaxit'', V = 0\<rparr>]"
  have n: "1 = NmaxIt lp1_after" by code_simp
  have h0: "0 < Nx ?st0" "NmaxIt ?st0 = 0" by code_simp+
  have start0: "second_shift (first_shift (initial_guess SPDsolve2_1 ?st0)) =
      ?st0\<lparr>Y := [3, 3, - 3 / 2, 13 / 8, 5 / 8]\<rparr>"
    by code_simp
  note inst = iterations_did_not_converge [of SPDsolve2_1 scripted _ _ _ False]
  have "Solve SPDsolve2_1 scripted False lp1_run =
      Returned (Some (Err ''iterations did not converge'')) lp1_after"
    using inst [of lp1_run 1 lp1_after] lp1_run_iterate n by blast
  moreover have "Solve SPDsolve2_1 scripted False ?st0 =
      Returned (Some (Err ''iterations did not converge''))
        (second_shift (first_shift (initial_guess SPDsolve2_1 ?st0)))"
    using inst [of ?st0] h0 by blast
  ultimately show ?thesis
    using lp1_run_iterate n h0 start0 by simp
qed

subsection \<open>C5: Init and degenerate dimensions\<close>



subsection \<open>C6: the options of Init\<close>

text \<open>C6, as amended. \<open>Init\<close> recognises the option \<^verbatim>\<open>nmaxit\<close> only: \<open>NmaxIt\<close> is the integer part of
  the value of the last parameter named \<^verbatim>\<open>nmaxit\<close>, and \<open>50\<close> when there is none; \<open>Tol\<close> is
  \<open>10\<^sup>-\<^sup>8\<close> whatever the parameters are; every parameter of another name, \<^verbatim>\<open>tol\<close> included, is
  ignored.\<close>

theorem Init_options:
  "NmaxIt (Init solver a b c prms) =
     (case filter (\<lambda>p. N p = ''nmaxit'') prms of
        [] \<Rightarrow> 50
      | p # ps \<Rightarrow> int_of_float64 (V (last (p # ps)))) \<and>
   Tol (Init solver a b c prms) = 1 / 10 ^ 8 \<and>
   Init solver a b c prms = Init solver a b c (filter (\<lambda>p. N p = ''nmaxit'') prms)"
proof -
  have "filter (\<lambda>p. N p = ''nmaxit'') (filter (\<lambda>p. N p = ''nmaxit'') prms) =
        filter (\<lambda>p. N p = ''nmaxit'') prms"
    by simp
  then show ?thesis
    by (simp add: Init_def Let_def Init_nmaxit_fold)
qed

text \<open>Counterexample to C6 as stated: a supplied \<^verbatim>\<open>tol\<close> of \<open>1/2\<close> leaves \<open>Tol\<close> at its
  default.\<close>

theorem Init_ignores_tol:
  "Tol (Init [] [[1, 1]] [4] [- 1, - 2] [\<lparr>N = ''tol'', V = 1 / 2\<rparr>]) = 1 / 10 ^ 8 \<and>
   Tol (Init [] [[1, 1]] [4] [- 1, - 2] [\<lparr>N = ''tol'', V = 1 / 2\<rparr>]) \<noteq> 1 / 2"
  by (simp add: Init_def)

subsection \<open>C7: the shifts of the starting point\<close>

text \<open>C7. On the state \<open>st\<close> that lines 119 to 127 leave (\<open>X = A\<^sup>T d\<close>, \<open>S = c - A\<^sup>T L\<close>), for a
  problem with at least one variable, the code adds to every entry of \<open>X\<close> and \<open>S\<close> the first shifts
  \<open>max(-1.5 min(X), 0)\<close> and \<open>max(-1.5 min(S), 0)\<close>, and then the second shifts
  \<open>0.5 (x\<^sup>T s) / \<Sigma>s\<close> and \<open>0.5 (x\<^sup>T s) / \<Sigma>x\<close>, whose dot product and sums are taken over the entries
  after the first shift; \<open>L\<close> is left as it is. The result is the starting point of \<open>Solve\<close>.\<close>

theorem starting_point_shifts:
  assumes "allocated st0" and "0 < Nx st0" and "st = initial_guess spd st0"
    and "spec_first_shifts st = (\<delta>x1, \<delta>s1)" and "spec_second_shifts st = (\<delta>x2, \<delta>s2)"
  shows "starting_point spd st0 = Some (second_shift (first_shift st)) \<and>
         (\<forall>i<Nx st. X (fst (first_shift st)) i = X st i + \<delta>x1 \<and>
                    S (fst (first_shift st)) i = S st i + \<delta>s1 \<and>
                    X (second_shift (first_shift st)) i = X (fst (first_shift st)) i + \<delta>x2 \<and>
                    S (second_shift (first_shift st)) i = S (fst (first_shift st)) i + \<delta>s2) \<and>
         (\<forall>j<Nl st. L (second_shift (first_shift st)) j = L st j)"
proof -
  obtain y0 where y0: "st = st0\<lparr>Y := y0\<rparr>" "length y0 = length (Y st0)"
    using initial_guess_frame [of spd st0] assms(3) by auto
  have len: "length (Y st) = 2 * Nx st + Nl st"
    using assms(1) y0 by (simp add: allocated_def)
  have nx: "0 < Nx st" using assms(2) y0 by simp
  from shifts_eq [OF len nx assms(4,5)] obtain y1 y2 where
    fs: "fst (first_shift st) = st\<lparr>Y := y1\<rparr>"
    and ss: "second_shift (first_shift st) = st\<lparr>Y := y2\<rparr>"
    and xs: "\<forall>i<Nx st. y1 ! i = X st i + \<delta>x1 \<and> y1 ! (Nx st + Nl st + i) = S st i + \<delta>s1 \<and>
                        y2 ! i = X st i + \<delta>x1 + \<delta>x2 \<and>
                        y2 ! (Nx st + Nl st + i) = S st i + \<delta>s1 + \<delta>s2"
    and ls: "\<forall>j<Nl st. y1 ! (Nx st + j) = L st j \<and> y2 ! (Nx st + j) = L st j"
    by auto
  have "starting_point spd st0 = Some (second_shift (first_shift st))"
    using assms(2,3) by (simp add: starting_point_eq)
  then show ?thesis
    using xs ls by (simp add: fs ss X_def S_def L_def)
qed

text \<open>Witness for C7: the shifts of \<open>lp1_run\<close> are \<open>0\<close> and \<open>3/4\<close>, then \<open>1\<close> and \<open>3/8\<close>.\<close>

theorem starting_point_shifts_witness:
  "allocated lp1_run \<and> 0 < Nx lp1_run \<and>
   initial_guess SPDsolve2_1 lp1_run = lp1_run\<lparr>Y := [2, 2, - 3 / 2, 1 / 2, - 1 / 2]\<rparr> \<and>
   spec_first_shifts (lp1_run\<lparr>Y := [2, 2, - 3 / 2, 1 / 2, - 1 / 2]\<rparr>) = (0, 3 / 4) \<and>
   spec_second_shifts (lp1_run\<lparr>Y := [2, 2, - 3 / 2, 1 / 2, - 1 / 2]\<rparr>) = (1, 3 / 8) \<and>
   starting_point SPDsolve2_1 lp1_run =
     Some (second_shift (first_shift (lp1_run\<lparr>Y := [2, 2, - 3 / 2, 1 / 2, - 1 / 2]\<rparr>))) \<and>
   S (fst (first_shift (lp1_run\<lparr>Y := [2, 2, - 3 / 2, 1 / 2, - 1 / 2]\<rparr>))) 1 =
     S (lp1_run\<lparr>Y := [2, 2, - 3 / 2, 1 / 2, - 1 / 2]\<rparr>) 1 + 3 / 4 \<and>
   X (second_shift (first_shift (lp1_run\<lparr>Y := [2, 2, - 3 / 2, 1 / 2, - 1 / 2]\<rparr>))) 0 =
     X (fst (first_shift (lp1_run\<lparr>Y := [2, 2, - 3 / 2, 1 / 2, - 1 / 2]\<rparr>))) 0 + 1 \<and>
   L (second_shift (first_shift (lp1_run\<lparr>Y := [2, 2, - 3 / 2, 1 / 2, - 1 / 2]\<rparr>))) 0 =
     L (lp1_run\<lparr>Y := [2, 2, - 3 / 2, 1 / 2, - 1 / 2]\<rparr>) 0"
proof -
  let ?st = "lp1_run\<lparr>Y := [2, 2, - 3 / 2, 1 / 2, - 1 / 2]\<rparr>"
  have a: "allocated lp1_run" and nx: "0 < Nx lp1_run" by code_simp+
  have g: "?st = initial_guess SPDsolve2_1 lp1_run" by code_simp
  have d1: "spec_first_shifts ?st = (0, 3 / 4)" by code_simp
  have d2: "spec_second_shifts ?st = (1, 3 / 8)" by code_simp
  have n: "0 < Nx ?st" "1 < Nx ?st" "0 < Nl ?st" by code_simp+
  from starting_point_shifts [OF a nx g d1 d2] n a nx g d1 d2 show ?thesis
    by simp
qed

subsection \<open>C8: the residual of the corrector\<close>

text \<open>C8 does not hold for the code, through the defect of C1. Between the two solves of an
  iteration the code changes \<open>R\<close> on \<open>Rs\<close> only, adding \<open>Mdx[i] Mds[i] - \<sigma> \<mu>\<close> to every \<open>Rs[i]\<close>
  (\<open>newton_step_corrector_residual\<close>), and its \<open>\<sigma>\<close> is \<open>(\<mu>\<^sub>a\<^sub>f\<^sub>f / \<mu>)\<^sup>3\<close> for the affine step lengths
  of the specification whenever a ratio qualifies for \<open>X\<close> and one for \<open>S\<close>
  (\<open>control_variables_spec\<close>). When no ratio qualifies, the step length of the code is \<open>0\<close> where
  that of the specification is \<open>1\<close>, and the centering parameters differ. In the first iteration
  of \<open>lp2_run\<close> the predictor direction has no entry \<open>Mdx[i] > 0\<close>: the code computes
  \<open>\<sigma> = (208/711)\<^sup>3\<close> from \<open>\<alpha>pa = 0\<close> and adds \<open>Mdx[i] Mds[i] - \<sigma> \<mu>\<close> with this \<open>\<sigma>\<close> to \<open>Rs[i]\<close>, where
  the step \<open>\<alpha>pa = 1\<close> of the specification gives \<open>\<sigma> = (9776/19197)\<^sup>3\<close> and other entries of \<open>Rs\<close>
  for the second solve.\<close>

theorem corrector_residual_without_candidate:
  "iteration scripted 0 lp2_run_start = Next lp2_run_after \<and>
   compute_residual lp2_run_start =
     (lp2_run_start\<lparr>R := [7 / 4, 7 / 4, 0, 15 / 32, 39 / 32]\<rparr>, - 9 / 4, 0, 27 / 32) \<and>
   (assemble_Jacobian (lp2_run_start\<lparr>R := [7 / 4, 7 / 4, 0, 15 / 32, 39 / 32]\<rparr>))
     \<lparr>Mdy := hd (Lis lp2_run_start), Lis := tl (Lis lp2_run_start)\<rparr> = lp2_run_predicted \<and>
   \<not> 0 < Mdx lp2_run_predicted 0 \<and> \<not> 0 < Mdx lp2_run_predicted 1 \<and>
   control_variables (27 / 32) lp2_run_predicted = (208 / 711) ^ 3 \<and>
   spec_sigma (27 / 32) lp2_run_predicted = (9776 / 19197) ^ 3 \<and>
   Rs lp2_run_after 0 =
     Rs lp2_run_predicted 0 +
       (Mdx lp2_run_predicted 0 * Mds lp2_run_predicted 0 - (208 / 711) ^ 3 * (27 / 32)) \<and>
   Rs lp2_run_after 1 =
     Rs lp2_run_predicted 1 +
       (Mdx lp2_run_predicted 1 * Mds lp2_run_predicted 1 - (208 / 711) ^ 3 * (27 / 32)) \<and>
   Rs lp2_run_after 0 \<noteq>
     Rs lp2_run_predicted 0 +
       (Mdx lp2_run_predicted 0 * Mds lp2_run_predicted 0 -
        spec_sigma (27 / 32) lp2_run_predicted * (27 / 32)) \<and>
   Rs lp2_run_after 1 \<noteq>
     Rs lp2_run_predicted 1 +
       (Mdx lp2_run_predicted 1 * Mds lp2_run_predicted 1 -
        spec_sigma (27 / 32) lp2_run_predicted * (27 / 32))"
proof -
  have dir: "\<not> 0 < Mdx lp2_run_predicted 0" "\<not> 0 < Mdx lp2_run_predicted 1"
    by code_simp+
  have code: "control_variables (27 / 32) lp2_run_predicted = (208 / 711) ^ 3"
    by code_simp
  have spec: "spec_sigma (27 / 32) lp2_run_predicted = (9776 / 19197) ^ 3"
    by code_simp
  have rs: "Rs lp2_run_after 0 =
      Rs lp2_run_predicted 0 +
        (Mdx lp2_run_predicted 0 * Mds lp2_run_predicted 0 - (208 / 711) ^ 3 * (27 / 32))"
    "Rs lp2_run_after 1 =
      Rs lp2_run_predicted 1 +
        (Mdx lp2_run_predicted 1 * Mds lp2_run_predicted 1 - (208 / 711) ^ 3 * (27 / 32))"
    by code_simp+
  have differ: "Rs lp2_run_after 0 \<noteq>
      Rs lp2_run_predicted 0 +
        (Mdx lp2_run_predicted 0 * Mds lp2_run_predicted 0 -
         spec_sigma (27 / 32) lp2_run_predicted * (27 / 32))"
    "Rs lp2_run_after 1 \<noteq>
      Rs lp2_run_predicted 1 +
        (Mdx lp2_run_predicted 1 * Mds lp2_run_predicted 1 -
         spec_sigma (27 / 32) lp2_run_predicted * (27 / 32))"
    by code_simp+
  show ?thesis
    by (intro conjI lp2_run_iteration lp2_run_residual lp2_run_predictor dir code spec rs differ)
qed

subsection \<open>C9: the final update\<close>

text \<open>C9 does not hold for the code, through the defect of C1. The update of an iteration takes
  the direction the second solve returned, moves \<open>X\<close> by \<open>min(1, 0.99 xrmin)\<close> times \<open>Mdx\<close> and both
  \<open>S\<close> and \<open>L\<close> by \<open>min(1, 0.99 srmin)\<close> times \<open>Mds\<close> and \<open>Mdl\<close>, for the result of \<open>calc_min_ratios\<close>
  on that direction (\<open>newton_step_final_update\<close>), and these step lengths are those of the
  specification whenever a ratio qualifies (\<open>step_length_x_spec\<close>, \<open>step_length_s_spec\<close>). When no
  ratio qualifies, the step length of the code is \<open>0\<close> where that of the specification is \<open>1\<close>
  (\<open>step_length_x_no_candidate\<close>). In the first iteration of \<open>lp2_run\<close> the corrected direction has
  no entry \<open>Mdx[i] > 0\<close>: \<open>xrmin\<close> is \<open>0\<close>, the primal step length is \<open>0\<close> and the update leaves \<open>X\<close>
  as it was, where the step \<open>1\<close> of the specification moves it by \<open>Mdx\<close>; \<open>S\<close> and \<open>L\<close> move with
  the dual step length \<open>0.99 srmin\<close>, as C9 says.\<close>

theorem final_update_without_candidate:
  "Solve SPDsolve2_1 scripted False lp2_run =
     Returned (Some (Err ''iterations did not converge'')) lp2_run_after \<and>
   newton_step scripted 0 (27 / 32) (lp2_run_start\<lparr>R := [7 / 4, 7 / 4, 0, 15 / 32, 39 / 32]\<rparr>) =
     Next lp2_run_after \<and>
   lp2_run_after\<lparr>Y := Y lp2_run_start\<rparr> = lp2_run_corrected \<and>
   \<not> 0 < Mdx lp2_run_corrected 0 \<and> \<not> 0 < Mdx lp2_run_corrected 1 \<and>
   calc_min_ratios lp2_run_corrected = (0, 6561 / 15581) \<and>
   min 1 (0.99 * fst (calc_min_ratios lp2_run_corrected)) = 0 \<and>
   spec_step_length 0.99
     (spec_min_ratio (Nx lp2_run_corrected) (X lp2_run_corrected) (Mdx lp2_run_corrected)) = 1 \<and>
   X lp2_run_after 0 = X lp2_run_start 0 \<and> X lp2_run_after 1 = X lp2_run_start 1 \<and>
   X lp2_run_after 0 \<noteq> X lp2_run_start 0 - 1 * Mdx lp2_run_corrected 0 \<and>
   X lp2_run_after 1 \<noteq> X lp2_run_start 1 - 1 * Mdx lp2_run_corrected 1 \<and>
   S lp2_run_after 0 =
     S lp2_run_start 0 - min 1 (0.99 * (6561 / 15581)) * Mds lp2_run_corrected 0 \<and>
   S lp2_run_after 1 =
     S lp2_run_start 1 - min 1 (0.99 * (6561 / 15581)) * Mds lp2_run_corrected 1 \<and>
   L lp2_run_after 0 =
     L lp2_run_start 0 - min 1 (0.99 * (6561 / 15581)) * Mdl lp2_run_corrected 0"
proof -
  have state: "lp2_run_after\<lparr>Y := Y lp2_run_start\<rparr> = lp2_run_corrected"
    by code_simp
  have dir: "\<not> 0 < Mdx lp2_run_corrected 0" "\<not> 0 < Mdx lp2_run_corrected 1"
    by code_simp+
  have code: "calc_min_ratios lp2_run_corrected = (0, 6561 / 15581)"
    "min 1 (0.99 * fst (calc_min_ratios lp2_run_corrected)) = 0"
    by code_simp+
  have spec: "spec_step_length 0.99
      (spec_min_ratio (Nx lp2_run_corrected) (X lp2_run_corrected) (Mdx lp2_run_corrected)) = 1"
    by code_simp
  have x: "X lp2_run_after 0 = X lp2_run_start 0" "X lp2_run_after 1 = X lp2_run_start 1"
    by code_simp+
  have differ: "X lp2_run_after 0 \<noteq> X lp2_run_start 0 - 1 * Mdx lp2_run_corrected 0"
    "X lp2_run_after 1 \<noteq> X lp2_run_start 1 - 1 * Mdx lp2_run_corrected 1"
    by code_simp+
  have sl: "S lp2_run_after 0 =
      S lp2_run_start 0 - min 1 (0.99 * (6561 / 15581)) * Mds lp2_run_corrected 0"
    "S lp2_run_after 1 =
      S lp2_run_start 1 - min 1 (0.99 * (6561 / 15581)) * Mds lp2_run_corrected 1"
    "L lp2_run_after 0 =
      L lp2_run_start 0 - min 1 (0.99 * (6561 / 15581)) * Mdl lp2_run_corrected 0"
    by code_simp+
  show ?thesis
    by (intro conjI lp2_run_Solve lp2_run_newton_step state dir code spec x differ sl)
qed

subsection \<open>C10: a negative iteration limit\<close>

text \<open>C10. If the last parameter named \<^verbatim>\<open>nmaxit\<close> holds a negative value of the integer option,
  that is a value of at most \<open>-1\<close>, and the problem has at least one variable, then \<open>Init\<close> sets a negative
  \<open>NmaxIt\<close> and \<open>Solve\<close> returns \<^verbatim>\<open>nil\<close>, whatever the linear solver is: the state it leaves is the
  starting point, which differs from the state it was given in \<open>Y\<close> only, so neither the handle of
  the linear solver nor \<open>Mdy\<close>, \<open>R\<close> or \<open>J\<close> has been touched.\<close>

theorem negative_nmaxit_returns_nil:
  assumes "st = Init solver a b c prms"
    and "filter (\<lambda>p. N p = ''nmaxit'') prms \<noteq> []"
    and "V (last (filter (\<lambda>p. N p = ''nmaxit'') prms)) \<le> - 1"
    and "c \<noteq> []"
  shows "NmaxIt st < 0 \<and>
         (\<exists>ys. starting_point spd st = Some (st\<lparr>Y := ys\<rparr>) \<and>
               Solve spd lis verbose st = Returned None (st\<lparr>Y := ys\<rparr>))"
proof -
  obtain p ps where f: "filter (\<lambda>p. N p = ''nmaxit'') prms = p # ps"
    using assms(2) by (cases "filter (\<lambda>p. N p = ''nmaxit'') prms") auto
  have "int_of_float64 (V (last (p # ps))) < 0"
    using assms(3) unfolding f by (simp add: int_of_float64_def ceiling_less_iff)
  moreover have "NmaxIt st = int_of_float64 (V (last (p # ps)))"
    unfolding assms(1) Init_def Let_def Init_nmaxit_fold f by simp
  ultimately have "NmaxIt st < 0" by simp
  moreover have "0 < Nx st"
    using assms(1,4) by (simp add: Init_def Let_def)
  ultimately show ?thesis
    using Solve_negative_NmaxIt [of st spd lis verbose] by simp
qed

text \<open>Witness for C10: \<open>Init\<close> turns the parameter \<^verbatim>\<open>nmaxit = -3\<close> into \<open>NmaxIt = -3\<close>, and \<open>Solve\<close>
  returns \<^verbatim>\<open>nil\<close> with the starting point.\<close>

theorem negative_nmaxit_returns_nil_witness:
  "filter (\<lambda>p. N p = ''nmaxit'') [\<lparr>N = ''nmaxit'', V = - 3\<rparr>] \<noteq> [] \<and>
   V (last (filter (\<lambda>p. N p = ''nmaxit'') [\<lparr>N = ''nmaxit'', V = - 3\<rparr>])) \<le> - 1 \<and>
   NmaxIt (lp1 [] [\<lparr>N = ''nmaxit'', V = - 3\<rparr>]) = - 3 \<and>
   Solve SPDsolve2_1 scripted False (lp1 [] [\<lparr>N = ''nmaxit'', V = - 3\<rparr>]) =
     Returned None ((lp1 [] [\<lparr>N = ''nmaxit'', V = - 3\<rparr>])\<lparr>Y := [3, 3, - 3 / 2, 13 / 8, 5 / 8]\<rparr>)"
proof -
  let ?prms = "[\<lparr>N = ''nmaxit'', V = - 3\<rparr>]"
  let ?st = "lp1 [] ?prms"
  have h: "filter (\<lambda>p. N p = ''nmaxit'') ?prms \<noteq> []"
    "V (last (filter (\<lambda>p. N p = ''nmaxit'') ?prms)) \<le> - 1"
    by simp_all
  have c: "[- 1, - 2 :: real] \<noteq> []" by simp
  have n: "NmaxIt ?st = - 3" by code_simp
  have sp: "starting_point SPDsolve2_1 ?st = Some (?st\<lparr>Y := [3, 3, - 3 / 2, 13 / 8, 5 / 8]\<rparr>)"
    by code_simp
  from negative_nmaxit_returns_nil [OF lp1_def h c, where spd = SPDsolve2_1 and lis = scripted
      and verbose = False]
  obtain ys where ys: "starting_point SPDsolve2_1 ?st = Some (?st\<lparr>Y := ys\<rparr>)"
    "Solve SPDsolve2_1 scripted False ?st = Returned None (?st\<lparr>Y := ys\<rparr>)"
    by blast
  from ys(1) sp have "?st\<lparr>Y := ys\<rparr> = ?st\<lparr>Y := [3, 3, - 3 / 2, 13 / 8, 5 / 8]\<rparr>"
    by (simp only: option.inject)
  with ys(2) have "Solve SPDsolve2_1 scripted False ?st =
      Returned None (?st\<lparr>Y := [3, 3, - 3 / 2, 13 / 8, 5 / 8]\<rparr>)"
    by (simp only:)
  with h n show ?thesis by blast
qed

end
